theory Spec2Isabelle
  imports Main
begin

section \<open>The appointment scheduling engine of the clinical practice manager\<close>

text \<open>
  A shallow embedding of \<^verbatim>\<open>backend/src/models/Appointment.ts\<close> (class
  \<^verbatim>\<open>AppointmentModel\<close>) together with the table \<^verbatim>\<open>appointments\<close> of the initial
  migration (its CHECK, key and EXCLUDE constraints).

  Conventions of the embedding.
  \<^item> A time of day \<^verbatim>\<open>HH:MM\<close> (the request strings, and the \<^verbatim>\<open>TIME\<close> columns) is the
    number of minutes since midnight, \<open>60 * HH + MM\<close>. \<^verbatim>\<open>parseTime\<close> puts the time on
    today's date, so two parsed times compare as their minute counts do.
  \<^item> A calendar day is a day number, and an instant is a number of milliseconds on the
    local time line. The \<^verbatim>\<open>appointment_date\<close> of a request is an ISO 8601 string: a
    date \<^verbatim>\<open>YYYY-MM-DD\<close>, or a date with a time. \<^verbatim>\<open>parseISO\<close> of a date is the local
    midnight that starts the day; the database keeps the date part (the column is a
    \<^verbatim>\<open>DATE\<close>). Daylight-saving shifts are not modelled.
  \<^item> A JavaScript string whose characters matter (the notes) is the list of its UTF-16
    code units.
  \<^item> Each \<^verbatim>\<open>await database.query\<close> is one atomic statement on the database value, which
    is passed in and returned.
  \<^item> A thrown \<^verbatim>\<open>Error\<close> is a value of type \<open>error\<close>; the result of a method is
    \<open>error + result\<close>.
\<close>

subsection \<open>Rows, requests and the database\<close>

type_synonym uuid = string
type_synonym day = int
type_synonym instant = int
type_synonym js_string = "nat list"

text \<open>
  An ISO 8601 string as the validation schema (\<^verbatim>\<open>Joi.string().isoDate()\<close>) admits it:
  \<open>DateOnly d\<close> is the date \<open>d\<close>; \<open>DateTime d ms\<close> is a string with the date part \<open>d\<close>
  and a time (and possibly a zone) that \<^verbatim>\<open>parseISO\<close> reads as the instant \<open>ms\<close>
  milliseconds after the local midnight of \<open>d\<close>.
\<close>

datatype iso_date = DateOnly day | DateTime day int

datatype appointment_status =
  scheduled | confirmed | in_progress | completed | cancelled | no_show

datatype appointment_type =
  consultation | follow_up | emergency | evaluation | therapy | medication_review

record appointment =
  appt_id :: uuid
  patient_id :: uuid
  psychiatrist_id :: uuid
  appointment_date :: day
  start_time :: int
  end_time :: int
  duration_minutes :: int
  appt_type :: appointment_type
  status :: appointment_status
  appt_notes :: "js_string option"

text \<open>\<^verbatim>\<open>AppointmentCreateRequest\<close>\<close>

record appointment_create_request =
  c_patient_id :: uuid
  c_appointment_date :: iso_date
  c_start_time :: int
  c_duration_minutes :: int
  c_type :: appointment_type
  c_notes :: "js_string option"

text \<open>
  \<^verbatim>\<open>AppointmentUpdateRequest\<close>: every field optional (\<open>None\<close> is \<^verbatim>\<open>undefined\<close>).
  \<^verbatim>\<open>patient_id\<close> may be present too, but \<^verbatim>\<open>update\<close> never reads it.
\<close>

record appointment_update_request =
  u_appointment_date :: "iso_date option"
  u_start_time :: "int option"
  u_duration_minutes :: "int option"
  u_type :: "appointment_type option"
  u_status :: "appointment_status option"
  u_notes :: "js_string option"

text \<open>
  The tables the model reads and writes: \<^verbatim>\<open>users\<close> (ids), \<^verbatim>\<open>patients\<close> (id and
  \<^verbatim>\<open>is_active\<close>) and \<^verbatim>\<open>appointments\<close>.
\<close>

record database =
  users :: "uuid list"
  patients :: "(uuid \<times> bool) list"
  appointments :: "appointment list"

text \<open>
  Errors. The source throws \<^verbatim>\<open>Error\<close> with a message; each message is one constructor,
  named after the error kind it stands for:
  \<^item> \<open>PastDate\<close>: 'No se pueden programar citas en fechas pasadas'
  \<^item> \<open>OutsideWorkingHours\<close>: 'Las citas solo se pueden programar entre las 8:00 AM y 8:00 PM'
  \<^item> \<open>InvalidDurationMin\<close>: 'La duracion minima de una cita es 15 minutos'
  \<^item> \<open>InvalidDurationMax\<close>: 'La duracion maxima de una cita es 8 horas'
  \<^item> \<open>PatientNotFound\<close>: 'El paciente no existe o esta inactivo'
  \<^item> \<open>PatientConflict\<close>: 'El paciente ya tiene una cita en ese horario'
  \<^item> \<open>ClinicianConflict\<close>: 'El psiquiatra ya tiene una cita en ese horario'
  \<^item> \<open>InsufficientLeadTime\<close>: 'Las citas deben programarse con al menos 1 hora de anticipacion'
  \<^item> \<open>NoValidFields\<close>: 'No hay campos validos para actualizar'
  \<^item> \<open>AppointmentNotFound\<close>: 'Cita no encontrada'
  \<^item> \<open>ScheduleConflict\<close>: 'Conflicto de horario con otra cita'
  \<^item> \<open>InvalidStatusTransition\<close>: the error kind of the lifecycle; no statement of the
    source throws it.
  \<^item> \<open>StoreError\<close>: the database rejected the statement (a constraint of the table).
\<close>

datatype store_error =
  CheckViolation | UniqueViolation | RangeBoundsError | ExclusionViolation | ForeignKeyViolation

datatype error =
  PastDate | OutsideWorkingHours | InvalidDurationMin | InvalidDurationMax
  | PatientNotFound | PatientConflict | ClinicianConflict | InsufficientLeadTime
  | NoValidFields | AppointmentNotFound | ScheduleConflict
  | InvalidStatusTransition appointment_status appointment_status
  | StoreError store_error

subsection \<open>Time arithmetic\<close>

text \<open>The local midnight that starts a day, in milliseconds.\<close>

definition midnight :: "day \<Rightarrow> instant" where
  "midnight d = d * 86400000"

text \<open>
  \<^verbatim>\<open>parseISO(appointment_date)\<close>, and the date that the database reads from the same
  string when it is the parameter of a \<^verbatim>\<open>DATE\<close> column.
\<close>

fun parseISO :: "iso_date \<Rightarrow> instant" where
  "parseISO (DateOnly d) = midnight d"
| "parseISO (DateTime d ms) = midnight d + ms"

fun dateOf :: "iso_date \<Rightarrow> day" where
  "dateOf (DateOnly d) = d"
| "dateOf (DateTime d ms) = d"

text \<open>
  \<^verbatim>\<open>format(addMinutes(this.parseTime(start), duration), 'HH:mm')\<close>: the time of day
  \<open>duration\<close> minutes after \<open>start\<close>. The format keeps hours and minutes and drops the
  date, so the result is taken modulo one day.
\<close>

definition computeEndTime :: "int \<Rightarrow> int \<Rightarrow> int" where
  "computeEndTime start duration = (start + duration) mod 1440"

text \<open>The working window of \<^verbatim>\<open>validateAppointmentData\<close>: '08:00' and '20:00'.\<close>

definition workStart :: int where
  "workStart = 8 * 60"

definition workEnd :: int where
  "workEnd = 20 * 60"

text \<open>
  The half-open overlap predicate of the specification,
  \<open>overlaps startA endA startB endB = (startA < endB \<and> startB < endA)\<close>.
\<close>

definition overlaps :: "int \<Rightarrow> int \<Rightarrow> int \<Rightarrow> int \<Rightarrow> bool" where
  "overlaps startA endA startB endB \<longleftrightarrow> startA < endB \<and> startB < endA"

subsection \<open>Conflict queries\<close>

text \<open>\<^verbatim>\<open>status NOT IN ('cancelled', 'no_show')\<close>\<close>

definition active :: "appointment \<Rightarrow> bool" where
  "active a \<longleftrightarrow> status a \<noteq> cancelled \<and> status a \<noteq> no_show"

text \<open>
  The time clause shared by the three conflict queries; \<open>p3\<close> and \<open>p4\<close> are the
  parameters \<^verbatim>\<open>$3\<close> (the candidate's start) and \<^verbatim>\<open>$4\<close> (its computed end):
  \<^verbatim>\<open>(start_time <= $3 AND end_time > $3) OR (start_time < $4 AND end_time >= $4) OR
  (start_time >= $3 AND end_time <= $4)\<close>
\<close>

definition timeClause :: "appointment \<Rightarrow> int \<Rightarrow> int \<Rightarrow> bool" where
  "timeClause a p3 p4 \<longleftrightarrow>
     (start_time a \<le> p3 \<and> end_time a > p3) \<or>
     (start_time a < p4 \<and> end_time a \<ge> p4) \<or>
     (start_time a \<ge> p3 \<and> end_time a \<le> p4)"

definition patientConflictQuery ::
  "database \<Rightarrow> uuid \<Rightarrow> day \<Rightarrow> int \<Rightarrow> int \<Rightarrow> appointment list" where
  "patientConflictQuery db pid d p3 p4 =
     filter (\<lambda>a. patient_id a = pid \<and> appointment_date a = d \<and> active a \<and> timeClause a p3 p4)
       (appointments db)"

definition psychiatristConflictQuery ::
  "database \<Rightarrow> uuid \<Rightarrow> day \<Rightarrow> int \<Rightarrow> int \<Rightarrow> appointment list" where
  "psychiatristConflictQuery db psy d p3 p4 =
     filter (\<lambda>a. psychiatrist_id a = psy \<and> appointment_date a = d \<and> active a \<and> timeClause a p3 p4)
       (appointments db)"

text \<open>\<^verbatim>\<open>SELECT id FROM patients WHERE id = $1 AND is_active = true\<close>\<close>

definition patientQuery :: "database \<Rightarrow> uuid \<Rightarrow> (uuid \<times> bool) list" where
  "patientQuery db pid = filter (\<lambda>p. fst p = pid \<and> snd p) (patients db)"

subsection \<open>Booking validation\<close>

text \<open>
  \<^verbatim>\<open>validateAppointmentData\<close>, check by check in the order of the source. The clock
  is read twice (\<^verbatim>\<open>new Date()\<close> in check 1 and in check 8), with database queries in
  between: \<open>now1\<close> and \<open>now2\<close> are the two readings.

  Check 8 computes \<^verbatim>\<open>hoursDiff = timeDiff / (1000 * 60 * 60)\<close> in floating point and
  tests \<^verbatim>\<open>hoursDiff < 1\<close>; for the integer \<open>timeDiff\<close> this is \<open>timeDiff < 3600000\<close>.
\<close>

definition validateAppointmentData ::
  "appointment_create_request \<Rightarrow> uuid \<Rightarrow> instant \<Rightarrow> instant \<Rightarrow> database \<Rightarrow> error + unit" where
  "validateAppointmentData req psychiatristId now1 now2 db =
    (let appointmentDateTime = parseISO (c_appointment_date req);
         startTime = c_start_time req;
         endTime = computeEndTime startTime (c_duration_minutes req)
     in
       if appointmentDateTime < now1 then Inl PastDate
       else if startTime < workStart \<or> startTime > workEnd then Inl OutsideWorkingHours
       else if c_duration_minutes req < 15 then Inl InvalidDurationMin
       else if c_duration_minutes req > 480 then Inl InvalidDurationMax
       else if patientQuery db (c_patient_id req) = [] then Inl PatientNotFound
       else if patientConflictQuery db (c_patient_id req) (dateOf (c_appointment_date req))
                 startTime endTime \<noteq> [] then Inl PatientConflict
       else if psychiatristConflictQuery db psychiatristId (dateOf (c_appointment_date req))
                 startTime endTime \<noteq> [] then Inl ClinicianConflict
       else if appointmentDateTime - now2 < 3600000 then Inl InsufficientLeadTime
       else Inr ())"

subsection \<open>The constraints of the table\<close>

text \<open>
  The table \<^verbatim>\<open>appointments\<close> of the initial migration carries, besides its primary key
  and foreign keys,
  \<^verbatim>\<open>CHECK (duration_minutes >= 15 AND duration_minutes <= 480)\<close> and two exclusion
  constraints, \<^verbatim>\<open>unique_patient_time_slot\<close> and \<^verbatim>\<open>unique_psychiatrist_time_slot\<close>:
  \<^verbatim>\<open>EXCLUDE USING gist (patient_id WITH =, appointment_date WITH =,
  tstzrange((appointment_date + start_time)::timestamptz,
  (appointment_date + end_time)::timestamptz) WITH &&)
  WHERE (status NOT IN ('cancelled', 'no_show'))\<close>.

  The constraints are taken as in force, as the migration declares them. A timestamp
  is counted in minutes. \<^verbatim>\<open>tstzrange(lo, hi)\<close> is the half-open range \<open>[lo, hi)\<close>;
  building it raises an error when \<open>hi < lo\<close>, and two ranges overlap (\<^verbatim>\<open>&&\<close>) when
  they have a point in common, so an empty range overlaps nothing.
\<close>

definition durationCheck :: "appointment \<Rightarrow> bool" where
  "durationCheck a \<longleftrightarrow> duration_minutes a \<ge> 15 \<and> duration_minutes a \<le> 480"

definition timestamptz :: "day \<Rightarrow> int \<Rightarrow> int" where
  "timestamptz d t = d * 1440 + t"

definition rangeLower :: "appointment \<Rightarrow> int" where
  "rangeLower a = timestamptz (appointment_date a) (start_time a)"

definition rangeUpper :: "appointment \<Rightarrow> int" where
  "rangeUpper a = timestamptz (appointment_date a) (end_time a)"

definition rangesOverlap :: "int \<Rightarrow> int \<Rightarrow> int \<Rightarrow> int \<Rightarrow> bool" where
  "rangesOverlap lo1 hi1 lo2 hi2 \<longleftrightarrow> lo1 < hi1 \<and> lo2 < hi2 \<and> lo1 < hi2 \<and> lo2 < hi1"

definition unique_patient_time_slot :: "appointment \<Rightarrow> appointment \<Rightarrow> bool" where
  "unique_patient_time_slot a b \<longleftrightarrow>
     active a \<and> active b \<and> patient_id a = patient_id b \<and>
     appointment_date a = appointment_date b \<and>
     rangesOverlap (rangeLower a) (rangeUpper a) (rangeLower b) (rangeUpper b)"

definition unique_psychiatrist_time_slot :: "appointment \<Rightarrow> appointment \<Rightarrow> bool" where
  "unique_psychiatrist_time_slot a b \<longleftrightarrow>
     active a \<and> active b \<and> psychiatrist_id a = psychiatrist_id b \<and>
     appointment_date a = appointment_date b \<and>
     rangesOverlap (rangeLower a) (rangeUpper a) (rangeLower b) (rangeUpper b)"

text \<open>
  What the database checks for a new row version \<open>a\<close> against the other rows of the
  table: the CHECK, then the index entries of the two exclusion constraints (only for a
  row that satisfies their WHERE clause; the range is built first).
\<close>

definition checkRow :: "appointment \<Rightarrow> appointment list \<Rightarrow> store_error option" where
  "checkRow a others =
     (if \<not> durationCheck a then Some CheckViolation
      else if active a \<and> rangeUpper a < rangeLower a then Some RangeBoundsError
      else if list_ex (\<lambda>b. unique_patient_time_slot a b \<or> unique_psychiatrist_time_slot a b) others
        then Some ExclusionViolation
      else None)"

text \<open>\<^verbatim>\<open>INSERT INTO appointments (...) VALUES (...) RETURNING *\<close>\<close>

definition insertAppointment :: "appointment \<Rightarrow> database \<Rightarrow> error + appointment \<times> database" where
  "insertAppointment a db =
     (if \<not> durationCheck a then Inl (StoreError CheckViolation)
      else if appt_id a \<in> set (map appt_id (appointments db)) then Inl (StoreError UniqueViolation)
      else case checkRow a (appointments db) of
        Some e \<Rightarrow> Inl (StoreError e)
      | None \<Rightarrow>
          if patient_id a \<notin> set (map fst (patients db)) \<or> psychiatrist_id a \<notin> set (users db)
          then Inl (StoreError ForeignKeyViolation)
          else Inr (a, db\<lparr>appointments := appointments db @ [a]\<rparr>))"

text \<open>
  \<^verbatim>\<open>UPDATE appointments SET ... WHERE id = $i AND psychiatrist_id = $p RETURNING *\<close>,
  with \<open>f\<close> the effect of the SET clause on a row. The result is the updated row, or
  \<open>None\<close> when no row matches (\<^verbatim>\<open>result.rows[0] || null\<close>). The id is the primary key,
  so the other rows are those with another id.
\<close>

definition updateAppointment ::
  "uuid \<Rightarrow> uuid \<Rightarrow> (appointment \<Rightarrow> appointment) \<Rightarrow> database
     \<Rightarrow> error + appointment option \<times> database" where
  "updateAppointment i psy f db =
     (case find (\<lambda>a. appt_id a = i \<and> psychiatrist_id a = psy) (appointments db) of
        None \<Rightarrow> Inr (None, db)
      | Some old \<Rightarrow>
          (case checkRow (f old) (filter (\<lambda>a. appt_id a \<noteq> i) (appointments db)) of
             Some e \<Rightarrow> Inl (StoreError e)
           | None \<Rightarrow>
               Inr (Some (f old),
                 db\<lparr>appointments :=
                   map (\<lambda>a. if appt_id a = i \<and> psychiatrist_id a = psy then f a else a)
                     (appointments db)\<rparr>)))"

subsection \<open>create\<close>

text \<open>
  \<^verbatim>\<open>notes?.trim() || null\<close>. \<^verbatim>\<open>String.prototype.trim\<close> removes the leading and
  trailing code units that are white space or line terminators of ECMAScript: TAB, LF,
  VT, FF, CR, SP, NBSP, U+1680, U+2000 to U+200A, U+2028, U+2029, U+202F, U+205F, U+3000
  and U+FEFF. An absent or empty note is stored as NULL.
\<close>

definition isSpace :: "nat \<Rightarrow> bool" where
  "isSpace c \<longleftrightarrow>
     c \<in> {0x09, 0x0A, 0x0B, 0x0C, 0x0D, 0x20, 0xA0, 0x1680, 0x2028, 0x2029, 0x202F, 0x205F,
          0x3000, 0xFEFF} \<or>
     (0x2000 \<le> c \<and> c \<le> 0x200A)"

definition trim :: "js_string \<Rightarrow> js_string" where
  "trim s = rev (dropWhile isSpace (rev (dropWhile isSpace s)))"

definition trimNotes :: "js_string option \<Rightarrow> js_string option" where
  "trimNotes n = (case n of None \<Rightarrow> None | Some s \<Rightarrow> if trim s = [] then None else Some (trim s))"

text \<open>
  \<^verbatim>\<open>AppointmentModel.create\<close>. \<open>newId\<close> is the value of \<^verbatim>\<open>uuidv4()\<close>; \<open>now1\<close> and
  \<open>now2\<close> are the clock readings of the validation.
\<close>

definition create ::
  "appointment_create_request \<Rightarrow> uuid \<Rightarrow> uuid \<Rightarrow> instant \<Rightarrow> instant \<Rightarrow> database
     \<Rightarrow> error + appointment \<times> database" where
  "create req psychiatristId newId now1 now2 db =
     (case validateAppointmentData req psychiatristId now1 now2 db of
        Inl e \<Rightarrow> Inl e
      | Inr _ \<Rightarrow>
          insertAppointment
            \<lparr>appt_id = newId,
             patient_id = c_patient_id req,
             psychiatrist_id = psychiatristId,
             appointment_date = dateOf (c_appointment_date req),
             start_time = c_start_time req,
             end_time = computeEndTime (c_start_time req) (c_duration_minutes req),
             duration_minutes = c_duration_minutes req,
             appt_type = c_type req,
             status = scheduled,
             appt_notes = trimNotes (c_notes req)\<rparr> db)"

subsection \<open>update and updateStatus\<close>

text \<open>\<^verbatim>\<open>findById\<close>: \<^verbatim>\<open>SELECT * FROM appointments WHERE id = $1\<close>\<close>

definition findById :: "database \<Rightarrow> uuid \<Rightarrow> appointment option" where
  "findById db i = find (\<lambda>a. appt_id a = i) (appointments db)"

text \<open>
  The SET clause that \<^verbatim>\<open>update\<close> builds from the allowed fields of the request that
  are not \<^verbatim>\<open>undefined\<close>.
\<close>

definition noValidFields :: "appointment_update_request \<Rightarrow> bool" where
  "noValidFields u \<longleftrightarrow>
     u_appointment_date u = None \<and> u_start_time u = None \<and> u_duration_minutes u = None \<and>
     u_type u = None \<and> u_status u = None \<and> u_notes u = None"

definition setClause :: "appointment_update_request \<Rightarrow> appointment \<Rightarrow> appointment" where
  "setClause u a =
     a\<lparr>appointment_date :=
         (case u_appointment_date u of None \<Rightarrow> appointment_date a | Some d \<Rightarrow> dateOf d),
       start_time := (case u_start_time u of None \<Rightarrow> start_time a | Some t \<Rightarrow> t),
       duration_minutes := (case u_duration_minutes u of None \<Rightarrow> duration_minutes a | Some n \<Rightarrow> n),
       appt_type := (case u_type u of None \<Rightarrow> appt_type a | Some k \<Rightarrow> k),
       status := (case u_status u of None \<Rightarrow> status a | Some s \<Rightarrow> s),
       appt_notes := (case u_notes u of None \<Rightarrow> appt_notes a | Some n \<Rightarrow> Some n)\<rparr>"

text \<open>
  \<^verbatim>\<open>updates.appointment_date || updates.start_time || updates.duration_minutes\<close>:
  a date or a time string is truthy, a number is truthy unless it is 0.
\<close>

definition temporalChange :: "appointment_update_request \<Rightarrow> bool" where
  "temporalChange u \<longleftrightarrow>
     u_appointment_date u \<noteq> None \<or> u_start_time u \<noteq> None \<or>
     (case u_duration_minutes u of None \<Rightarrow> False | Some n \<Rightarrow> n \<noteq> 0)"

text \<open>The conflict query of \<^verbatim>\<open>update\<close>, which leaves the appointment itself out.\<close>

definition conflictQuery ::
  "database \<Rightarrow> uuid \<Rightarrow> uuid \<Rightarrow> day \<Rightarrow> int \<Rightarrow> int \<Rightarrow> appointment list" where
  "conflictQuery db i psy d p4 p5 =
     filter (\<lambda>a. appt_id a \<noteq> i \<and> psychiatrist_id a = psy \<and> appointment_date a = d \<and>
                 active a \<and> timeClause a p4 p5)
       (appointments db)"

definition update ::
  "uuid \<Rightarrow> appointment_update_request \<Rightarrow> uuid \<Rightarrow> database
     \<Rightarrow> error + appointment option \<times> database" where
  "update i u psychiatristId db =
     (if noValidFields u then Inl NoValidFields
      else if temporalChange u then
        (case findById db i of
           None \<Rightarrow> Inl AppointmentNotFound
         | Some appointment \<Rightarrow>
             (let newDate = (case u_appointment_date u of
                               None \<Rightarrow> appointment_date appointment | Some d \<Rightarrow> dateOf d);
                  newStartTime = (case u_start_time u of
                               None \<Rightarrow> start_time appointment | Some t \<Rightarrow> t);
                  newDuration = (case u_duration_minutes u of
                               None \<Rightarrow> duration_minutes appointment
                             | Some n \<Rightarrow> if n \<noteq> 0 then n else duration_minutes appointment);
                  endTime = computeEndTime newStartTime newDuration
              in
                if conflictQuery db i psychiatristId newDate newStartTime endTime \<noteq> []
                then Inl ScheduleConflict
                else updateAppointment i psychiatristId
                       (\<lambda>a. (setClause u a)\<lparr>end_time := endTime\<rparr>) db))
      else updateAppointment i psychiatristId (setClause u) db)"

text \<open>
  \<^verbatim>\<open>updateStatus\<close>:
  \<^verbatim>\<open>UPDATE appointments SET status = $1, updated_at = NOW() WHERE id = $2 AND psychiatrist_id = $3\<close>
\<close>

definition updateStatus ::
  "uuid \<Rightarrow> appointment_status \<Rightarrow> uuid \<Rightarrow> database \<Rightarrow> error + appointment option \<times> database" where
  "updateStatus i s psychiatristId db =
     updateAppointment i psychiatristId (\<lambda>a. a\<lparr>status := s\<rparr>) db"

subsection \<open>getAvailability\<close>

text \<open>
  \<^verbatim>\<open>Number.prototype.toString\<close> on a natural number (\<open>digit\<close> is applied below 10
  only), and \<^verbatim>\<open>padStart(2, '0')\<close>.
\<close>

definition digit :: "nat \<Rightarrow> char" where
  "digit n = ''0123456789'' ! n"

fun toString :: "nat \<Rightarrow> string" where
  "toString n = (if n < 10 then [digit n] else toString (n div 10) @ [digit (n mod 10)])"

declare toString.simps [simp del]

definition padStart2 :: "string \<Rightarrow> string" where
  "padStart2 s = replicate (2 - length s) (CHR ''0'') @ s"

text \<open>
  \<^verbatim>\<open>minutesToTime\<close>; the loop calls it on minute counts from 480 upwards only, where
  \<^verbatim>\<open>Math.floor(minutes / 60)\<close> and \<^verbatim>\<open>minutes % 60\<close> are \<open>div\<close> and \<open>mod\<close>.
\<close>

definition minutesToTime :: "int \<Rightarrow> string" where
  "minutesToTime minutes =
     padStart2 (toString (nat (minutes div 60))) @ '':'' @ padStart2 (toString (nat (minutes mod 60)))"

text \<open>
  \<^verbatim>\<open>timeToMinutes\<close>:
  \<^verbatim>\<open>const [hours, minutes] = timeString.split(':').map(Number); return hours * 60 + minutes\<close>.
  \<open>splitOn\<close> is \<^verbatim>\<open>split\<close> with a separator of one character. \<^verbatim>\<open>Number\<close> is modelled
  on fields of decimal digits (the empty field is 0); for any other field, and for a
  string with fewer than two fields, the result is \<open>None\<close> (the source computes NaN, or
  reads another number syntax). \<^verbatim>\<open>parseTime\<close> reads a time string in the same way.
\<close>

fun splitOn :: "char \<Rightarrow> string \<Rightarrow> string list" where
  "splitOn c [] = [[]]"
| "splitOn c (x # xs) =
     (if x = c then [] # splitOn c xs
      else (case splitOn c xs of [] \<Rightarrow> [[x]] | f # fs \<Rightarrow> (x # f) # fs))"

definition isDigit :: "char \<Rightarrow> bool" where
  "isDigit c \<longleftrightarrow> 48 \<le> (of_char c :: nat) \<and> (of_char c :: nat) \<le> 57"

definition Number :: "string \<Rightarrow> nat option" where
  "Number s =
     (if list_all isDigit s
      then Some (foldl (\<lambda>n c. 10 * n + ((of_char c :: nat) - 48)) 0 s)
      else None)"

definition timeToMinutes :: "string \<Rightarrow> int option" where
  "timeToMinutes timeString =
     (case splitOn (CHR '':'') timeString of
        hours # minutes # _ \<Rightarrow>
          (case (Number hours, Number minutes) of
             (Some h, Some m) \<Rightarrow> Some (int (h * 60 + m))
           | _ \<Rightarrow> None)
      | _ \<Rightarrow> None)"

text \<open>
  \<^verbatim>\<open>SELECT start_time, end_time FROM appointments WHERE appointment_date = $1 AND
  psychiatrist_id = $2 AND status NOT IN ('cancelled', 'no_show') ORDER BY start_time\<close>
\<close>

definition existingAppointmentsQuery :: "database \<Rightarrow> day \<Rightarrow> uuid \<Rightarrow> appointment list" where
  "existingAppointmentsQuery db d psy =
     sort_key start_time
       (filter (\<lambda>a. appointment_date a = d \<and> psychiatrist_id a = psy \<and> active a) (appointments db))"

text \<open>
  The test of the loop body; \<^verbatim>\<open>timeToMinutes\<close> of a column is its minute count:
  \<^verbatim>\<open>existingAppointments.some(appointment =>
  start < apptEnd && (start + durationMinutes) > apptStart)\<close>
\<close>

definition hasConflict :: "appointment list \<Rightarrow> int \<Rightarrow> int \<Rightarrow> bool" where
  "hasConflict existingAppointments start durationMinutes =
     list_ex (\<lambda>appointment. start < end_time appointment \<and>
                             start + durationMinutes > start_time appointment)
       existingAppointments"

text \<open>
  \<^verbatim>\<open>for (let start = workStart; start <= workEnd - durationMinutes; start += slotDuration)\<close>
  with \<^verbatim>\<open>slotDuration = 30\<close>; the function is the loop from a given \<open>start\<close> on, and its
  value is what the loop appends to \<^verbatim>\<open>availableSlots\<close>.
\<close>

function availabilityLoop :: "int \<Rightarrow> int \<Rightarrow> appointment list \<Rightarrow> string list" where
  "availabilityLoop start durationMinutes existingAppointments =
     (if start \<le> workEnd - durationMinutes then
        (if \<not> hasConflict existingAppointments start durationMinutes
         then minutesToTime start # availabilityLoop (start + 30) durationMinutes existingAppointments
         else availabilityLoop (start + 30) durationMinutes existingAppointments)
      else [])"
  by pat_completeness auto
termination
  by (relation "measure (\<lambda>(start, durationMinutes, _). nat (workEnd - durationMinutes - start + 1))")
    auto

definition getAvailability :: "day \<Rightarrow> uuid \<Rightarrow> int \<Rightarrow> database \<Rightarrow> string list" where
  "getAvailability d psychiatristId durationMinutes db =
     availabilityLoop workStart durationMinutes (existingAppointmentsQuery db d psychiatristId)"

subsection \<open>The order of the validation checks, as a list\<close>

text \<open>
  The eight checks of \<^verbatim>\<open>validateAppointmentData\<close> in the order of their numbered
  comments, each with the error it throws; \<open>firstViolation\<close> is the error of the first
  check of a list that is violated.
\<close>

definition firstViolation :: "(bool \<times> error) list \<Rightarrow> error + unit" where
  "firstViolation checks = (case find fst checks of None \<Rightarrow> Inr () | Some c \<Rightarrow> Inl (snd c))"

definition checksInOrder ::
  "appointment_create_request \<Rightarrow> uuid \<Rightarrow> instant \<Rightarrow> instant \<Rightarrow> database
     \<Rightarrow> (bool \<times> error) list" where
  "checksInOrder req psy now1 now2 db =
     [(parseISO (c_appointment_date req) < now1, PastDate),
      (c_start_time req < workStart \<or> workEnd < c_start_time req, OutsideWorkingHours),
      (c_duration_minutes req < 15, InvalidDurationMin),
      (480 < c_duration_minutes req, InvalidDurationMax),
      (\<not> list_ex (\<lambda>p. fst p = c_patient_id req \<and> snd p) (patients db), PatientNotFound),
      (list_ex (\<lambda>a. patient_id a = c_patient_id req \<and>
                    appointment_date a = dateOf (c_appointment_date req) \<and> active a \<and>
                    timeClause a (c_start_time req)
                      (computeEndTime (c_start_time req) (c_duration_minutes req)))
         (appointments db), PatientConflict),
      (list_ex (\<lambda>a. psychiatrist_id a = psy \<and>
                    appointment_date a = dateOf (c_appointment_date req) \<and> active a \<and>
                    timeClause a (c_start_time req)
                      (computeEndTime (c_start_time req) (c_duration_minutes req)))
         (appointments db), ClinicianConflict),
      (parseISO (c_appointment_date req) - now2 < 3600000, InsufficientLeadTime)]"

subsection \<open>Example data\<close>

text \<open>
  A practice with two psychiatrists and three patients (the third inactive), a
  constructor for requests (with a date-only string) and rows, and clock readings: \<open>at d m\<close> is the instant
  \<open>m\<close> minutes after the midnight that starts day \<open>d\<close>.
\<close>

definition at :: "day \<Rightarrow> int \<Rightarrow> instant" where
  "at d m = midnight d + m * 60000"

definition exampleTable :: "appointment list \<Rightarrow> database" where
  "exampleTable rows =
     \<lparr>users = [''dr-1'', ''dr-2''],
      patients = [(''pat-1'', True), (''pat-2'', True), (''pat-3'', False)],
      appointments = rows\<rparr>"

definition booking :: "uuid \<Rightarrow> day \<Rightarrow> int \<Rightarrow> int \<Rightarrow> appointment_create_request" where
  "booking pid d t n =
     \<lparr>c_patient_id = pid, c_appointment_date = DateOnly d, c_start_time = t,
      c_duration_minutes = n, c_type = consultation, c_notes = None\<rparr>"

definition exampleRow ::
  "uuid \<Rightarrow> uuid \<Rightarrow> uuid \<Rightarrow> day \<Rightarrow> int \<Rightarrow> int \<Rightarrow> appointment_status \<Rightarrow> appointment" where
  "exampleRow i pid psy d t n s =
     \<lparr>appt_id = i, patient_id = pid, psychiatrist_id = psy, appointment_date = d,
      start_time = t, end_time = computeEndTime t n, duration_minutes = n,
      appt_type = consultation, status = s, appt_notes = None\<rparr>"

definition noChanges :: appointment_update_request where
  "noChanges =
     \<lparr>u_appointment_date = None, u_start_time = None, u_duration_minutes = None,
      u_type = None, u_status = None, u_notes = None\<rparr>"

subsection \<open>Sequences of operations\<close>

text \<open>
  The three writing methods as operations on the database. An operation that throws
  stops the sequence; \<^verbatim>\<open>update\<close> and \<^verbatim>\<open>updateStatus\<close> returning \<^verbatim>\<open>null\<close> (no row of
  that id and psychiatrist) leave the database as it is.
\<close>

datatype operation =
    Create appointment_create_request uuid uuid instant instant
  | Update uuid appointment_update_request uuid
  | UpdateStatus uuid appointment_status uuid

fun perform :: "operation \<Rightarrow> database \<Rightarrow> error + database" where
  "perform (Create req psychiatristId newId now1 now2) db =
     (case create req psychiatristId newId now1 now2 db of
        Inl e \<Rightarrow> Inl e | Inr r \<Rightarrow> Inr (snd r))"
| "perform (Update i u psychiatristId) db =
     (case update i u psychiatristId db of Inl e \<Rightarrow> Inl e | Inr r \<Rightarrow> Inr (snd r))"
| "perform (UpdateStatus i s psychiatristId) db =
     (case updateStatus i s psychiatristId db of Inl e \<Rightarrow> Inl e | Inr r \<Rightarrow> Inr (snd r))"

fun performAll :: "operation list \<Rightarrow> database \<Rightarrow> error + database" where
  "performAll [] db = Inr db"
| "performAll (x # xs) db =
     (case perform x db of Inl e \<Rightarrow> Inl e | Inr db' \<Rightarrow> performAll xs db')"

subsection \<open>Double booking, and the consistency of the table\<close>

text \<open>
  Two appointments are double booked when neither is cancelled or a no-show, they are
  on the same date for the same patient or the same psychiatrist, and their intervals
  overlap. \<open>noDoubleBooking\<close> says that the rows of the table are pairwise different
  and no two of them are double booked.
\<close>

definition doubleBooked :: "appointment \<Rightarrow> appointment \<Rightarrow> bool" where
  "doubleBooked a b \<longleftrightarrow>
     active a \<and> active b \<and> appointment_date a = appointment_date b \<and>
     (patient_id a = patient_id b \<or> psychiatrist_id a = psychiatrist_id b) \<and>
     overlaps (start_time a) (end_time a) (start_time b) (end_time b)"

definition noDoubleBooking :: "database \<Rightarrow> bool" where
  "noDoubleBooking db \<longleftrightarrow>
     distinct (appointments db) \<and>
     (\<forall>a\<in>set (appointments db). \<forall>b\<in>set (appointments db). a \<noteq> b \<longrightarrow> \<not> doubleBooked a b)"

text \<open>
  What the constraints of the table and the writes of the model maintain: ids are
  unique; every row has a duration within the CHECK and the end time computed from its
  start and duration; an active row starts no later than it ends; no two rows violate
  an exclusion constraint.
\<close>

definition rowConsistent :: "appointment \<Rightarrow> bool" where
  "rowConsistent a \<longleftrightarrow>
     durationCheck a \<and> end_time a = computeEndTime (start_time a) (duration_minutes a) \<and>
     (active a \<longrightarrow> start_time a \<le> end_time a)"

definition excluded :: "appointment \<Rightarrow> appointment \<Rightarrow> bool" where
  "excluded a b \<longleftrightarrow> unique_patient_time_slot a b \<or> unique_psychiatrist_time_slot a b"

definition tableConsistent :: "database \<Rightarrow> bool" where
  "tableConsistent db \<longleftrightarrow>
     distinct (map appt_id (appointments db)) \<and>
     (\<forall>a\<in>set (appointments db). rowConsistent a) \<and>
     (\<forall>a\<in>set (appointments db). \<forall>b\<in>set (appointments db).
        appt_id a \<noteq> appt_id b \<longrightarrow> \<not> excluded a b)"

text \<open>
  The row version that a reschedule writes for the row \<open>old\<close>: the SET clause of the
  request, with the end time recomputed from the new start and the new duration.
\<close>

definition rescheduled :: "appointment_update_request \<Rightarrow> appointment \<Rightarrow> appointment" where
  "rescheduled u old =
     (setClause u old)\<lparr>end_time :=
        computeEndTime
          (case u_start_time u of None \<Rightarrow> start_time old | Some t \<Rightarrow> t)
          (case u_duration_minutes u of
             None \<Rightarrow> duration_minutes old
           | Some n \<Rightarrow> if n \<noteq> 0 then n else duration_minutes old)\<rparr>"

text \<open>
  For a row, the booking request with its patient, date, start and duration; and the
  database without the appointment of a given id.
\<close>

definition asBooking :: "appointment \<Rightarrow> appointment_create_request" where
  "asBooking a =
     \<lparr>c_patient_id = patient_id a, c_appointment_date = DateOnly (appointment_date a),
      c_start_time = start_time a, c_duration_minutes = duration_minutes a,
      c_type = appt_type a, c_notes = appt_notes a\<rparr>"

definition withoutAppointment :: "database \<Rightarrow> uuid \<Rightarrow> database" where
  "withoutAppointment db i = db\<lparr>appointments := filter (\<lambda>a. appt_id a \<noteq> i) (appointments db)\<rparr>"

subsection \<open>Two calls of create, statement by statement\<close>

text \<open>
  \<^verbatim>\<open>create\<close> opens no transaction: it awaits four statements in turn, the patient
  query, the patient conflict query, the psychiatrist conflict query and the insert,
  and between two of them the statements of another call can run. A call is the
  request with the psychiatrist, the generated id and its two clock readings; its phase
  says which statement it awaits next. \<open>createStep\<close> runs the code of \<^verbatim>\<open>create\<close> up to
  and including the next statement: checks 1 to 4 come before the patient query, check
  8 comes after the psychiatrist conflict query.
\<close>

record create_call =
  call_request :: appointment_create_request
  call_psychiatrist :: uuid
  call_id :: uuid
  call_now1 :: instant
  call_now2 :: instant

datatype create_phase =
  AtPatientQuery | AtPatientConflictQuery | AtPsychiatristConflictQuery | AtInsert
  | Returned "error + appointment"

definition callRow :: "create_call \<Rightarrow> appointment" where
  "callRow c =
     \<lparr>appt_id = call_id c,
      patient_id = c_patient_id (call_request c),
      psychiatrist_id = call_psychiatrist c,
      appointment_date = dateOf (c_appointment_date (call_request c)),
      start_time = c_start_time (call_request c),
      end_time = computeEndTime (c_start_time (call_request c))
                   (c_duration_minutes (call_request c)),
      duration_minutes = c_duration_minutes (call_request c),
      appt_type = c_type (call_request c),
      status = scheduled,
      appt_notes = trimNotes (c_notes (call_request c))\<rparr>"

fun createStep :: "create_call \<Rightarrow> create_phase \<Rightarrow> database \<Rightarrow> create_phase \<times> database" where
  "createStep c AtPatientQuery db =
     (let req = call_request c in
      if parseISO (c_appointment_date req) < call_now1 c then (Returned (Inl PastDate), db)
      else if c_start_time req < workStart \<or> c_start_time req > workEnd
        then (Returned (Inl OutsideWorkingHours), db)
      else if c_duration_minutes req < 15 then (Returned (Inl InvalidDurationMin), db)
      else if c_duration_minutes req > 480 then (Returned (Inl InvalidDurationMax), db)
      else if patientQuery db (c_patient_id req) = [] then (Returned (Inl PatientNotFound), db)
      else (AtPatientConflictQuery, db))"
| "createStep c AtPatientConflictQuery db =
     (let req = call_request c in
      if patientConflictQuery db (c_patient_id req) (dateOf (c_appointment_date req))
           (c_start_time req) (computeEndTime (c_start_time req) (c_duration_minutes req)) \<noteq> []
      then (Returned (Inl PatientConflict), db)
      else (AtPsychiatristConflictQuery, db))"
| "createStep c AtPsychiatristConflictQuery db =
     (let req = call_request c in
      if psychiatristConflictQuery db (call_psychiatrist c) (dateOf (c_appointment_date req))
           (c_start_time req) (computeEndTime (c_start_time req) (c_duration_minutes req)) \<noteq> []
      then (Returned (Inl ClinicianConflict), db)
      else if parseISO (c_appointment_date req) - call_now2 c < 3600000
        then (Returned (Inl InsufficientLeadTime), db)
      else (AtInsert, db))"
| "createStep c AtInsert db =
     (case insertAppointment (callRow c) db of
        Inl e \<Rightarrow> (Returned (Inl e), db)
      | Inr r \<Rightarrow> (Returned (Inr (fst r)), snd r))"
| "createStep c (Returned r) db = (Returned r, db)"

text \<open>
  Two calls \<open>A\<close> and \<open>B\<close> against one database. A schedule is the list of the turns:
  \<open>True\<close> lets \<open>A\<close> run its next statement, \<open>False\<close> lets \<open>B\<close>. A state holds the two
  phases and the database.
\<close>

fun raceStep ::
  "create_call \<Rightarrow> create_call \<Rightarrow> create_phase \<times> create_phase \<times> database \<Rightarrow> bool
     \<Rightarrow> create_phase \<times> create_phase \<times> database" where
  "raceStep A B (pa, pb, db) turn =
     (if turn then (fst (createStep A pa db), pb, snd (createStep A pa db))
      else (pa, fst (createStep B pb db), snd (createStep B pb db)))"

definition race ::
  "create_call \<Rightarrow> create_call \<Rightarrow> bool list \<Rightarrow> database
     \<Rightarrow> create_phase \<times> create_phase \<times> database" where
  "race A B schedule db = foldl (raceStep A B) (AtPatientQuery, AtPatientQuery, db) schedule"

text \<open>
  A call run on its own is \<^verbatim>\<open>create\<close>. A phase is awaiting when the call has a
  statement left to run, and refused when the call has thrown for the slot: with one
  of the two conflict errors of the model, or with the violation of an exclusion
  constraint of the table. \<open>raceInvariant\<close> relates the states of a race to the
  outcomes \<open>(rA, dbA)\<close> and \<open>(rB, dbB)\<close> of the two calls run on their own: nobody has
  inserted yet, or \<open>A\<close> has and \<open>B\<close> is awaiting or refused, or the other way round.
\<close>

definition createCall :: "create_call \<Rightarrow> database \<Rightarrow> error + appointment \<times> database" where
  "createCall c db =
     create (call_request c) (call_psychiatrist c) (call_id c) (call_now1 c) (call_now2 c) db"





section \<open>Properties\<close>

subsection \<open>Auxiliary facts\<close>

lemma filter_empty_list_ex: "filter P xs = [] \<longleftrightarrow> \<not> list_ex P xs"
  by (induction xs) auto

lemma hasConflict_overlaps:
  "hasConflict existing start n =
     list_ex (\<lambda>a. overlaps start (start + n) (start_time a) (end_time a)) existing"
  by (simp add: hasConflict_def overlaps_def conj_commute)

lemma validate_past:
  "parseISO (c_appointment_date req) < now1 \<Longrightarrow>
   validateAppointmentData req psy now1 now2 db = Inl PastDate"
  by (simp add: validateAppointmentData_def Let_def)

subsection \<open>Consistency of the table under the operations\<close>

lemma excluded_sym: "excluded a b \<longleftrightarrow> excluded b a"
  by (auto simp add: excluded_def unique_patient_time_slot_def unique_psychiatrist_time_slot_def
      rangesOverlap_def)

lemma wrap_fixed:
  fixes s d :: int
  assumes "(s + d) mod 1440 = s" and "15 \<le> d" and "d \<le> 480"
  shows False
proof -
  from assms(1) have "0 \<le> s" "s < 1440"
    by (metis pos_mod_sign zero_less_numeral, metis pos_mod_bound zero_less_numeral)
  show False
  proof (cases "s + d < 1440")
    case True
    with \<open>0 \<le> s\<close> assms(2) have "(s + d) mod 1440 = s + d" by simp
    with assms show False by simp
  next
    case False
    from False \<open>s < 1440\<close> assms(3) have "(s + d - 1440) mod 1440 = s + d - 1440"
      by (intro mod_pos_pos_trivial) simp_all
    moreover have "(s + d - 1440) mod 1440 = (s + d) mod 1440" by simp
    ultimately show False using assms by simp
  qed
qed

lemma rowConsistent_proper:
  assumes "rowConsistent a" and "active a"
  shows "start_time a < end_time a"
proof -
  from assms have e: "end_time a = (start_time a + duration_minutes a) mod 1440"
    and d: "15 \<le> duration_minutes a" "duration_minutes a \<le> 480"
    and le: "start_time a \<le> end_time a"
    by (simp_all add: rowConsistent_def computeEndTime_def durationCheck_def)
  have "start_time a \<noteq> end_time a"
  proof
    assume eq: "start_time a = end_time a"
    with e have "(start_time a + duration_minutes a) mod 1440 = start_time a" by simp
    from this d show False by (rule wrap_fixed)
  qed
  with le show ?thesis by simp
qed

lemma excluded_iff_doubleBooked:
  assumes "rowConsistent a" and "rowConsistent b"
  shows "excluded a b \<longleftrightarrow> doubleBooked a b"
proof (cases "active a \<and> active b")
  case False
  then show ?thesis
    by (auto simp add: excluded_def doubleBooked_def unique_patient_time_slot_def
        unique_psychiatrist_time_slot_def)
next
  case True
  with assms have "start_time a < end_time a" "start_time b < end_time b"
    by (simp_all add: rowConsistent_proper)
  then show ?thesis
    by (auto simp add: excluded_def doubleBooked_def unique_patient_time_slot_def
        unique_psychiatrist_time_slot_def rangesOverlap_def rangeLower_def rangeUpper_def
        timestamptz_def overlaps_def)
qed

lemma range_order: "rangeUpper a < rangeLower a \<longleftrightarrow> end_time a < start_time a"
  by (simp add: rangeLower_def rangeUpper_def timestamptz_def)

lemma checkRow_None:
  "checkRow a others = None \<longleftrightarrow>
     durationCheck a \<and> (active a \<longrightarrow> start_time a \<le> end_time a) \<and>
     (\<forall>b\<in>set others. \<not> excluded a b)"
  unfolding checkRow_def range_order list_ex_iff excluded_def
  by (simp add: not_less)

lemma tableConsistent_distinct_rows:
  assumes "tableConsistent db"
  shows "noDoubleBooking db"
proof -
  from assms have d: "distinct (map appt_id (appointments db))"
    and r: "\<forall>a\<in>set (appointments db). rowConsistent a"
    and x: "\<forall>a\<in>set (appointments db). \<forall>b\<in>set (appointments db).
        appt_id a \<noteq> appt_id b \<longrightarrow> \<not> excluded a b"
    by (simp_all add: tableConsistent_def)
  from d have inj: "inj_on appt_id (set (appointments db))" and dr: "distinct (appointments db)"
    by (simp_all add: distinct_map)
  have "\<not> doubleBooked a b" if "a \<in> set (appointments db)" "b \<in> set (appointments db)" "a \<noteq> b" for a b
  proof -
    from that inj have "appt_id a \<noteq> appt_id b" by (auto dest: inj_onD)
    with x that have "\<not> excluded a b" by blast
    with r that show ?thesis by (simp add: excluded_iff_doubleBooked)
  qed
  with dr show ?thesis by (auto simp add: noDoubleBooking_def)
qed

lemma insertAppointment_consistent:
  assumes ok: "insertAppointment a db = Inr (r, db')"
    and inv: "tableConsistent db"
    and e: "end_time a = computeEndTime (start_time a) (duration_minutes a)"
  shows "tableConsistent db'"
proof -
  from ok have dc: "durationCheck a" and fresh: "appt_id a \<notin> set (map appt_id (appointments db))"
    and cr: "checkRow a (appointments db) = None"
    and db': "db' = db\<lparr>appointments := appointments db @ [a]\<rparr>"
    by (auto simp add: insertAppointment_def split: if_splits option.splits)
  from cr have rng: "active a \<longrightarrow> start_time a \<le> end_time a"
    and ex: "\<forall>b\<in>set (appointments db). \<not> excluded a b"
    by (simp_all add: checkRow_None)
  from dc e rng have "rowConsistent a" by (simp add: rowConsistent_def)
  moreover from ex have "\<forall>b\<in>set (appointments db). \<not> excluded b a"
    using excluded_sym by blast
  ultimately show ?thesis
    using inv fresh ex unfolding db' tableConsistent_def by auto
qed

lemma find_by_key:
  assumes d: "distinct (map appt_id xs)" and f: "find P xs = Some old" and i: "appt_id old = i"
    and a: "a \<in> set xs" and ai: "appt_id a = i"
  shows "a = old"
proof -
  from f have "old \<in> set xs" by (auto simp add: find_Some_iff)
  with d a i ai show ?thesis by (auto simp add: distinct_map dest: inj_onD)
qed

lemma updateAppointment_consistent:
  assumes ok: "updateAppointment i psy f db = Inr (r, db')"
    and inv: "tableConsistent db"
    and keep: "\<And>a. appt_id (f a) = appt_id a"
    and e: "\<And>old. find (\<lambda>a. appt_id a = i \<and> psychiatrist_id a = psy) (appointments db) = Some old
              \<Longrightarrow> durationCheck (f old)
              \<Longrightarrow> end_time (f old) = computeEndTime (start_time (f old)) (duration_minutes (f old))"
  shows "tableConsistent db'"
proof (cases "find (\<lambda>a. appt_id a = i \<and> psychiatrist_id a = psy) (appointments db)")
  case None
  with ok have "db' = db" by (simp add: updateAppointment_def)
  with inv show ?thesis by simp
next
  case (Some old)
  let ?rows = "appointments db"
  let ?g = "\<lambda>a. if appt_id a = i \<and> psychiatrist_id a = psy then f a else a"
  from Some have oldin: "old \<in> set ?rows" and oldi: "appt_id old = i" and oldp: "psychiatrist_id old = psy"
    by (auto simp add: find_Some_iff)
  from ok Some have cr: "checkRow (f old) (filter (\<lambda>a. appt_id a \<noteq> i) ?rows) = None"
    and db': "db' = db\<lparr>appointments := map ?g ?rows\<rparr>"
    by (auto simp add: updateAppointment_def split: option.splits)
  from inv have d: "distinct (map appt_id ?rows)"
    and rc: "\<forall>a\<in>set ?rows. rowConsistent a"
    and x: "\<forall>a\<in>set ?rows. \<forall>b\<in>set ?rows. appt_id a \<noteq> appt_id b \<longrightarrow> \<not> excluded a b"
    by (simp_all add: tableConsistent_def)
  from cr have dc: "durationCheck (f old)"
    and rng: "active (f old) \<longrightarrow> start_time (f old) \<le> end_time (f old)"
    and ex: "\<forall>b\<in>set ?rows. appt_id b \<noteq> i \<longrightarrow> \<not> excluded (f old) b"
    by (simp_all add: checkRow_None)
  from e [OF Some dc] dc rng have rcn: "rowConsistent (f old)" by (simp add: rowConsistent_def)
  define rows' where "rows' = map ?g ?rows"
  have ids: "map appt_id rows' = map appt_id ?rows"
    by (simp add: rows'_def keep)
  have cases: "(a \<in> set ?rows \<and> appt_id a \<noteq> i) \<or> a = f old" if "a \<in> set rows'" for a
  proof -
    from that obtain b where b: "b \<in> set ?rows" "a = ?g b"
      unfolding rows'_def by auto
    show ?thesis
    proof (cases "appt_id b = i")
      case True
      from d Some oldi b(1) True have "b = old" by (rule find_by_key)
      with b(2) oldi oldp show ?thesis by simp
    next
      case False
      with b show ?thesis by simp
    qed
  qed
  have fi: "appt_id (f old) = i"
    using keep [of old] oldi by simp
  have r': "rowConsistent a" if "a \<in> set rows'" for a
    using cases [OF that] rc rcn by blast
  have x': "\<not> excluded a b"
    if a: "a \<in> set rows'" and b: "b \<in> set rows'" and ne: "appt_id a \<noteq> appt_id b" for a b
  proof -
    from cases [OF a] show ?thesis
    proof
      assume a1: "a \<in> set ?rows \<and> appt_id a \<noteq> i"
      from cases [OF b] show ?thesis
      proof
        assume "b \<in> set ?rows \<and> appt_id b \<noteq> i"
        with a1 x ne show ?thesis by blast
      next
        assume "b = f old"
        with a1 ex have "\<not> excluded b a" by blast
        then show ?thesis using excluded_sym by blast
      qed
    next
      assume a2: "a = f old"
      from cases [OF b] show ?thesis
      proof
        assume "b \<in> set ?rows \<and> appt_id b \<noteq> i"
        with a2 ex show ?thesis by blast
      next
        assume "b = f old"
        with a2 ne show ?thesis by simp
      qed
    qed
  qed
  have "tableConsistent (db\<lparr>appointments := rows'\<rparr>)"
    unfolding tableConsistent_def using d ids r' x' by simp
  then show ?thesis
    unfolding db' rows'_def .
qed

lemma empty_table_consistent: "appointments db = [] \<Longrightarrow> tableConsistent db"
  by (simp add: tableConsistent_def)

lemma create_consistent:
  assumes "create req psy newId now1 now2 db = Inr (r, db')" and "tableConsistent db"
  shows "tableConsistent db'"
proof -
  from assms(1) obtain a where
    "insertAppointment a db = Inr (r, db')"
    "end_time a = computeEndTime (start_time a) (duration_minutes a)"
    by (auto simp add: create_def split: sum.splits)
  from this(1) assms(2) this(2) show ?thesis by (rule insertAppointment_consistent)
qed

lemma updateStatus_consistent:
  assumes "updateStatus i s psy db = Inr (r, db')" and inv: "tableConsistent db"
  shows "tableConsistent db'"
proof -
  let ?f = "\<lambda>a. a\<lparr>status := s\<rparr>"
  from assms(1) have ok: "updateAppointment i psy ?f db = Inr (r, db')"
    by (simp add: updateStatus_def)
  show ?thesis
  proof (rule updateAppointment_consistent [OF ok inv])
    show "appt_id (?f a) = appt_id a" for a by simp
  next
    fix old
    assume "find (\<lambda>a. appt_id a = i \<and> psychiatrist_id a = psy) (appointments db) = Some old"
    then have "old \<in> set (appointments db)" by (auto simp add: find_Some_iff)
    with inv have "rowConsistent old" by (simp add: tableConsistent_def)
    then show "end_time (?f old) = computeEndTime (start_time (?f old)) (duration_minutes (?f old))"
      by (simp add: rowConsistent_def)
  qed
qed

lemma setClause_id: "appt_id (setClause u a) = appt_id a"
  by (simp add: setClause_def)

lemma update_consistent:
  assumes ok: "update i u psy db = Inr (r, db')" and inv: "tableConsistent db"
  shows "tableConsistent db'"
proof (cases "temporalChange u")
  case False
  with ok have ua: "updateAppointment i psy (setClause u) db = Inr (r, db')"
    by (simp add: update_def split: if_splits)
  from False have none: "u_appointment_date u = None" "u_start_time u = None"
    and dur: "u_duration_minutes u = None \<or> u_duration_minutes u = Some 0"
    by (auto simp add: temporalChange_def split: option.splits)
  show ?thesis
  proof (rule updateAppointment_consistent [OF ua inv])
    show "appt_id (setClause u a) = appt_id a" for a by (rule setClause_id)
  next
    fix old
    assume f: "find (\<lambda>a. appt_id a = i \<and> psychiatrist_id a = psy) (appointments db) = Some old"
      and dc: "durationCheck (setClause u old)"
    from f have "old \<in> set (appointments db)" by (auto simp add: find_Some_iff)
    with inv have rc: "rowConsistent old" by (simp add: tableConsistent_def)
    from dc dur have "u_duration_minutes u = None"
      by (auto simp add: durationCheck_def setClause_def)
    with none rc
    show "end_time (setClause u old)
            = computeEndTime (start_time (setClause u old)) (duration_minutes (setClause u old))"
      by (simp add: setClause_def rowConsistent_def)
  qed
next
  case True
  with ok obtain appointment where fb: "findById db i = Some appointment"
    by (auto simp add: update_def split: if_splits option.splits)
  define newStartTime where
    "newStartTime = (case u_start_time u of None \<Rightarrow> start_time appointment | Some t \<Rightarrow> t)"
  define newDuration where
    "newDuration = (case u_duration_minutes u of None \<Rightarrow> duration_minutes appointment
                    | Some n \<Rightarrow> if n \<noteq> 0 then n else duration_minutes appointment)"
  define endTime where "endTime = computeEndTime newStartTime newDuration"
  let ?f = "\<lambda>a. (setClause u a)\<lparr>end_time := endTime\<rparr>"
  from ok True fb have ua: "updateAppointment i psy ?f db = Inr (r, db')"
    by (simp add: update_def Let_def endTime_def newStartTime_def newDuration_def
        split: if_splits)
  from inv have d: "distinct (map appt_id (appointments db))"
    by (simp add: tableConsistent_def)
  from fb have ain: "appointment \<in> set (appointments db)" and ai: "appt_id appointment = i"
    by (auto simp add: findById_def find_Some_iff)
  show ?thesis
  proof (rule updateAppointment_consistent [OF ua inv])
    show "appt_id (?f a) = appt_id a" for a by (simp add: setClause_id)
  next
    fix old
    assume f: "find (\<lambda>a. appt_id a = i \<and> psychiatrist_id a = psy) (appointments db) = Some old"
      and dc: "durationCheck (?f old)"
    from f have "appt_id old = i" by (auto simp add: find_Some_iff)
    from d f this ain ai have same: "appointment = old" by (rule find_by_key)
    have st: "start_time (?f old) = newStartTime"
      unfolding newStartTime_def same by (simp add: setClause_def)
    from dc have "15 \<le> duration_minutes (setClause u old)"
      by (simp add: durationCheck_def)
    then have "duration_minutes (?f old) = newDuration"
      unfolding newDuration_def same by (cases "u_duration_minutes u") (auto simp add: setClause_def)
    with st show "end_time (?f old) = computeEndTime (start_time (?f old)) (duration_minutes (?f old))"
      by (simp add: endTime_def)
  qed
qed

lemma perform_consistent:
  assumes "perform x db = Inr db'" and "tableConsistent db"
  shows "tableConsistent db'"
proof (cases x)
  case (Create req psy newId now1 now2)
  with assms(1) obtain r where "create req psy newId now1 now2 db = Inr (r, db')"
    by (cases "create req psy newId now1 now2 db") auto
  from this assms(2) show ?thesis by (rule create_consistent)
next
  case (Update i u psy)
  with assms(1) obtain r where "update i u psy db = Inr (r, db')"
    by (cases "update i u psy db") auto
  from this assms(2) show ?thesis by (rule update_consistent)
next
  case (UpdateStatus i s psy)
  with assms(1) obtain r where "updateStatus i s psy db = Inr (r, db')"
    by (cases "updateStatus i s psy db") auto
  from this assms(2) show ?thesis by (rule updateStatus_consistent)
qed

lemma performAll_consistent:
  "tableConsistent db \<Longrightarrow> performAll xs db = Inr db' \<Longrightarrow> tableConsistent db'"
proof (induction xs arbitrary: db)
  case Nil
  then show ?case by simp
next
  case (Cons x xs)
  from Cons.prems(2) obtain db1 where p: "perform x db = Inr db1" and rest: "performAll xs db1 = Inr db'"
    by (cases "perform x db") auto
  from p Cons.prems(1) have "tableConsistent db1" by (rule perform_consistent)
  from Cons.IH [OF this rest] show ?case .
qed

lemma find_conj:
  "find P xs = Some x \<Longrightarrow> Q x \<Longrightarrow> find (\<lambda>a. P a \<and> Q a) xs = Some x"
  by (induction xs) (auto split: if_splits)

lemma map_by_key:
  assumes d: "distinct (map appt_id xs)" and f: "find (\<lambda>a. appt_id a = i) xs = Some old"
    and own: "psychiatrist_id old = psy"
  shows "map (\<lambda>a. if appt_id a = i \<and> psychiatrist_id a = psy then g a else a) xs
       = map (\<lambda>a. if appt_id a = i then g old else a) xs"
proof (rule map_cong [OF refl])
  fix a assume a: "a \<in> set xs"
  from f have oi: "appt_id old = i" by (auto simp add: find_Some_iff)
  show "(if appt_id a = i \<and> psychiatrist_id a = psy then g a else a)
      = (if appt_id a = i then g old else a)"
  proof (cases "appt_id a = i")
    case True
    from d f oi a True have "a = old" by (rule find_by_key)
    with own oi show ?thesis by simp
  next
    case False
    then show ?thesis by simp
  qed
qed

lemma updateAppointment_by_key:
  assumes d: "distinct (map appt_id (appointments db))" and f: "findById db i = Some old"
    and own: "psychiatrist_id old = psy"
  shows "updateAppointment i psy g db =
     (case checkRow (g old) (filter (\<lambda>a. appt_id a \<noteq> i) (appointments db)) of
        Some e \<Rightarrow> Inl (StoreError e)
      | None \<Rightarrow> Inr (Some (g old),
          db\<lparr>appointments := map (\<lambda>a. if appt_id a = i then g old else a) (appointments db)\<rparr>))"
proof -
  from f have f': "find (\<lambda>a. appt_id a = i) (appointments db) = Some old"
    by (simp add: findById_def)
  from find_conj [OF f', of "\<lambda>a. psychiatrist_id a = psy"] own
  have "find (\<lambda>a. appt_id a = i \<and> psychiatrist_id a = psy) (appointments db) = Some old"
    by simp
  then show ?thesis
    by (simp add: updateAppointment_def map_by_key [OF d f' own] split: option.splits)
qed

lemma updateAppointment_errors:
  "updateAppointment i psy g db = Inl e \<Longrightarrow> \<exists>se. e = StoreError se"
  by (auto simp add: updateAppointment_def split: option.splits)

lemma updateStatus_errors:
  "updateStatus i s psy db = Inl e \<Longrightarrow> \<exists>se. e = StoreError se"
  unfolding updateStatus_def by (rule updateAppointment_errors)

lemma update_errors:
  assumes "update i u psy db = Inl e"
  shows "e = NoValidFields \<or> e = AppointmentNotFound \<or> e = ScheduleConflict \<or>
         (\<exists>se. e = StoreError se)"
proof (cases "noValidFields u")
  case True
  with assms show ?thesis by (simp add: update_def)
next
  case nv: False
  show ?thesis
  proof (cases "temporalChange u")
    case False
    with nv assms have "updateAppointment i psy (setClause u) db = Inl e"
      by (simp add: update_def)
    then show ?thesis by (auto dest: updateAppointment_errors)
  next
    case True
    show ?thesis
    proof (cases "findById db i")
      case None
      with nv True assms show ?thesis by (simp add: update_def)
    next
      case (Some appointment)
      with nv True assms show ?thesis
        by (auto simp add: update_def Let_def split: if_splits dest: updateAppointment_errors)
    qed
  qed
qed

subsection \<open>No double booking\<close>

text \<open>
  Claim C1. From a table without appointments, after every sequence of \<^verbatim>\<open>create\<close>,
  \<^verbatim>\<open>update\<close> and \<^verbatim>\<open>updateStatus\<close> operations none of which throws, no two different
  appointments that are neither cancelled nor no-shows share the patient or the
  psychiatrist and the date and have overlapping intervals; the interval of each such
  appointment is proper (its start before its end).
\<close>

theorem no_double_booking:
  assumes "appointments db = []" and "performAll xs db = Inr db'"
  shows "noDoubleBooking db' \<and>
         (\<forall>a\<in>set (appointments db'). active a \<longrightarrow> start_time a < end_time a)"
proof -
  from assms(1) have "tableConsistent db" by (rule empty_table_consistent)
  from this assms(2) have inv: "tableConsistent db'" by (rule performAll_consistent)
  then have "noDoubleBooking db'" by (rule tableConsistent_distinct_rows)
  moreover from inv have "\<forall>a\<in>set (appointments db'). active a \<longrightarrow> start_time a < end_time a"
    by (simp add: tableConsistent_def rowConsistent_proper)
  ultimately show ?thesis by simp
qed

text \<open>
  The claim at five operations: two bookings, a cancellation, a booking of the freed
  patient with the other psychiatrist, and a reschedule into the freed slot.
\<close>

theorem no_double_booking_witness:
  "appointments (exampleTable []) = [] \<and>
   performAll
     [Create (booking ''pat-1'' 20002 600 60) ''dr-1'' ''a-1'' (at 20000 600) (at 20000 600),
      Create (booking ''pat-2'' 20002 660 30) ''dr-1'' ''a-2'' (at 20000 600) (at 20000 600),
      UpdateStatus ''a-1'' cancelled ''dr-1'',
      Create (booking ''pat-1'' 20002 600 60) ''dr-2'' ''a-3'' (at 20000 600) (at 20000 600),
      Update ''a-2'' (noChanges\<lparr>u_start_time := Some 600, u_duration_minutes := Some 45\<rparr>) ''dr-1'']
     (exampleTable [])
   = Inr (exampleTable
       [exampleRow ''a-1'' ''pat-1'' ''dr-1'' 20002 600 60 cancelled,
        exampleRow ''a-2'' ''pat-2'' ''dr-1'' 20002 600 45 scheduled,
        exampleRow ''a-3'' ''pat-1'' ''dr-2'' 20002 600 60 scheduled]) \<and>
   noDoubleBooking (exampleTable
       [exampleRow ''a-1'' ''pat-1'' ''dr-1'' 20002 600 60 cancelled,
        exampleRow ''a-2'' ''pat-2'' ''dr-1'' 20002 600 45 scheduled,
        exampleRow ''a-3'' ''pat-1'' ''dr-2'' 20002 600 60 scheduled])"
proof -
  have e: "appointments (exampleTable []) = []"
    by (simp add: exampleTable_def)
  have run: "performAll
     [Create (booking ''pat-1'' 20002 600 60) ''dr-1'' ''a-1'' (at 20000 600) (at 20000 600),
      Create (booking ''pat-2'' 20002 660 30) ''dr-1'' ''a-2'' (at 20000 600) (at 20000 600),
      UpdateStatus ''a-1'' cancelled ''dr-1'',
      Create (booking ''pat-1'' 20002 600 60) ''dr-2'' ''a-3'' (at 20000 600) (at 20000 600),
      Update ''a-2'' (noChanges\<lparr>u_start_time := Some 600, u_duration_minutes := Some 45\<rparr>) ''dr-1'']
     (exampleTable [])
   = Inr (exampleTable
       [exampleRow ''a-1'' ''pat-1'' ''dr-1'' 20002 600 60 cancelled,
        exampleRow ''a-2'' ''pat-2'' ''dr-1'' 20002 600 45 scheduled,
        exampleRow ''a-3'' ''pat-1'' ''dr-2'' 20002 600 60 scheduled])"
    by code_simp
  from no_double_booking [OF e run] e run show ?thesis
    by blast
qed

subsection \<open>Status changes\<close>

text \<open>
  Claim C2, as amended. \<^verbatim>\<open>updateStatus\<close> consults no lifecycle graph. In a database
  reached from an empty table, for an appointment of the calling psychiatrist that is
  neither cancelled nor a no-show, every requested status is stored, the current one
  and any successor of a terminal one included; and the statuses cancelled and no-show
  are stored on every appointment of the caller. No call of \<^verbatim>\<open>updateStatus\<close> fails
  with \<open>InvalidStatusTransition\<close>.
\<close>

theorem updateStatus_unconditional:
  assumes e: "appointments db0 = []" and reach: "performAll xs db0 = Inr db"
    and f: "findById db i = Some old" and own: "psychiatrist_id old = psy"
    and act: "active old \<or> s = cancelled \<or> s = no_show"
  shows "updateStatus i s psy db =
           Inr (Some (old\<lparr>status := s\<rparr>),
                db\<lparr>appointments :=
                  map (\<lambda>a. if appt_id a = i then old\<lparr>status := s\<rparr> else a) (appointments db)\<rparr>) \<and>
         (\<forall>i' s' psy' db' cur req.
            updateStatus i' s' psy' db' \<noteq> Inl (InvalidStatusTransition cur req))"
proof -
  let ?new = "old\<lparr>status := s\<rparr>"
  from e have "tableConsistent db0" by (rule empty_table_consistent)
  from this reach have inv: "tableConsistent db" by (rule performAll_consistent)
  then have d: "distinct (map appt_id (appointments db))"
    and rc: "\<forall>a\<in>set (appointments db). rowConsistent a"
    and x: "\<forall>a\<in>set (appointments db). \<forall>b\<in>set (appointments db).
        appt_id a \<noteq> appt_id b \<longrightarrow> \<not> excluded a b"
    by (simp_all add: tableConsistent_def)
  from f have oin: "old \<in> set (appointments db)" and oi: "appt_id old = i"
    by (auto simp add: findById_def find_Some_iff)
  from rc oin have rco: "rowConsistent old" by blast
  have an: "active ?new \<Longrightarrow> active old"
    using act by (auto simp add: active_def)
  have "durationCheck ?new"
    using rco by (simp add: rowConsistent_def durationCheck_def)
  moreover have "active ?new \<longrightarrow> start_time ?new \<le> end_time ?new"
    using an rco by (auto simp add: rowConsistent_def)
  moreover have "\<not> excluded ?new b" if b: "b \<in> set (appointments db)" "appt_id b \<noteq> i" for b
  proof
    assume ex: "excluded ?new b"
    then have "active ?new"
      by (auto simp add: excluded_def unique_patient_time_slot_def unique_psychiatrist_time_slot_def)
    then have "active old" by (rule an)
    with ex have "excluded old b"
      by (auto simp add: excluded_def unique_patient_time_slot_def unique_psychiatrist_time_slot_def
          rangeLower_def rangeUpper_def)
    with x oin b oi show False by auto
  qed
  ultimately have "checkRow ?new (filter (\<lambda>a. appt_id a \<noteq> i) (appointments db)) = None"
    by (simp add: checkRow_None)
  then have "updateStatus i s psy db =
      Inr (Some ?new,
           db\<lparr>appointments := map (\<lambda>a. if appt_id a = i then ?new else a) (appointments db)\<rparr>)"
    by (simp add: updateStatus_def updateAppointment_by_key [OF d f own])
  moreover have "\<forall>i' s' psy' db' cur req.
      updateStatus i' s' psy' db' \<noteq> Inl (InvalidStatusTransition cur req)"
    by (auto dest: updateStatus_errors)
  ultimately show ?thesis by (rule conjI)
qed

text \<open>
  The amended claim at a completed appointment that is set back to scheduled.
\<close>

theorem updateStatus_unconditional_witness:
  "performAll
     [Create (booking ''pat-1'' 20002 600 60) ''dr-1'' ''a-1'' (at 20000 600) (at 20000 600),
      UpdateStatus ''a-1'' completed ''dr-1'']
     (exampleTable [])
   = Inr (exampleTable [exampleRow ''a-1'' ''pat-1'' ''dr-1'' 20002 600 60 completed]) \<and>
   updateStatus ''a-1'' scheduled ''dr-1''
       (exampleTable [exampleRow ''a-1'' ''pat-1'' ''dr-1'' 20002 600 60 completed])
     = Inr (Some (exampleRow ''a-1'' ''pat-1'' ''dr-1'' 20002 600 60 scheduled),
            exampleTable [exampleRow ''a-1'' ''pat-1'' ''dr-1'' 20002 600 60 scheduled])"
proof -
  let ?old = "exampleRow ''a-1'' ''pat-1'' ''dr-1'' 20002 600 60 completed"
  let ?db = "exampleTable [?old]"
  have e: "appointments (exampleTable []) = []"
    by (simp add: exampleTable_def)
  have run: "performAll
     [Create (booking ''pat-1'' 20002 600 60) ''dr-1'' ''a-1'' (at 20000 600) (at 20000 600),
      UpdateStatus ''a-1'' completed ''dr-1'']
     (exampleTable []) = Inr ?db"
    by code_simp
  have f: "findById ?db ''a-1'' = Some ?old"
    by code_simp
  have own: "psychiatrist_id ?old = ''dr-1''"
    by (simp add: exampleRow_def)
  have act: "active ?old \<or> scheduled = cancelled \<or> scheduled = no_show"
    by (simp add: exampleRow_def active_def)
  have new: "Inr (Some (?old\<lparr>status := scheduled\<rparr>),
        ?db\<lparr>appointments := map (\<lambda>a. if appt_id a = ''a-1'' then ?old\<lparr>status := scheduled\<rparr> else a)
          (appointments ?db)\<rparr>)
      = (Inr (Some (exampleRow ''a-1'' ''pat-1'' ''dr-1'' 20002 600 60 scheduled),
            exampleTable [exampleRow ''a-1'' ''pat-1'' ''dr-1'' 20002 600 60 scheduled])
          :: error + appointment option \<times> database)"
    by (simp add: exampleRow_def exampleTable_def)
  from updateStatus_unconditional [OF e run f own act] new run show ?thesis
    by simp
qed

text \<open>
  Claim C2 as stated fails: completed to scheduled (out of a terminal status),
  completed to completed (the status the appointment already has) and scheduled to
  in-progress (skipping confirmed) all succeed, where the claim requires
  \<open>InvalidStatusTransition\<close>.
\<close>

theorem updateStatus_counterexample:
  "updateStatus ''a-1'' scheduled ''dr-1''
       (exampleTable [exampleRow ''a-1'' ''pat-1'' ''dr-1'' 20002 600 60 completed])
     = Inr (Some (exampleRow ''a-1'' ''pat-1'' ''dr-1'' 20002 600 60 scheduled),
            exampleTable [exampleRow ''a-1'' ''pat-1'' ''dr-1'' 20002 600 60 scheduled]) \<and>
   updateStatus ''a-1'' completed ''dr-1''
       (exampleTable [exampleRow ''a-1'' ''pat-1'' ''dr-1'' 20002 600 60 completed])
     = Inr (Some (exampleRow ''a-1'' ''pat-1'' ''dr-1'' 20002 600 60 completed),
            exampleTable [exampleRow ''a-1'' ''pat-1'' ''dr-1'' 20002 600 60 completed]) \<and>
   updateStatus ''a-1'' in_progress ''dr-1''
       (exampleTable [exampleRow ''a-1'' ''pat-1'' ''dr-1'' 20002 600 60 scheduled])
     = Inr (Some (exampleRow ''a-1'' ''pat-1'' ''dr-1'' 20002 600 60 in_progress),
            exampleTable [exampleRow ''a-1'' ''pat-1'' ''dr-1'' 20002 600 60 in_progress])"
  by code_simp

subsection \<open>Reschedules\<close>

text \<open>
  With unique ids, \<^verbatim>\<open>update\<close> of the temporal fields of an appointment of the caller,
  in terms of the row it writes.
\<close>

lemma update_by_key:
  assumes d: "distinct (map appt_id (appointments db))"
    and f: "findById db i = Some old" and own: "psychiatrist_id old = psy"
    and tc: "temporalChange u"
  shows "update i u psy db =
     (if list_ex (\<lambda>b. appt_id b \<noteq> i \<and> psychiatrist_id b = psy \<and>
                      appointment_date b = appointment_date (rescheduled u old) \<and> active b \<and>
                      timeClause b (start_time (rescheduled u old)) (end_time (rescheduled u old)))
           (appointments db)
      then Inl ScheduleConflict
      else case checkRow (rescheduled u old) (filter (\<lambda>a. appt_id a \<noteq> i) (appointments db)) of
        Some se \<Rightarrow> Inl (StoreError se)
      | None \<Rightarrow> Inr (Some (rescheduled u old),
          db\<lparr>appointments :=
            map (\<lambda>a. if appt_id a = i then rescheduled u old else a) (appointments db)\<rparr>))"
proof -
  from tc have nv: "\<not> noValidFields u"
    by (auto simp add: temporalChange_def noValidFields_def)
  have r: "(setClause u old)\<lparr>end_time :=
        computeEndTime
          (case u_start_time u of None \<Rightarrow> start_time old | Some t \<Rightarrow> t)
          (case u_duration_minutes u of
             None \<Rightarrow> duration_minutes old
           | Some n \<Rightarrow> if n \<noteq> 0 then n else duration_minutes old)\<rparr> = rescheduled u old"
    by (simp add: rescheduled_def)
  have fields: "appointment_date (rescheduled u old)
        = (case u_appointment_date u of None \<Rightarrow> appointment_date old | Some d \<Rightarrow> dateOf d)"
      "start_time (rescheduled u old)
        = (case u_start_time u of None \<Rightarrow> start_time old | Some t \<Rightarrow> t)"
      "end_time (rescheduled u old) = computeEndTime
          (case u_start_time u of None \<Rightarrow> start_time old | Some t \<Rightarrow> t)
          (case u_duration_minutes u of
             None \<Rightarrow> duration_minutes old
           | Some n \<Rightarrow> if n \<noteq> 0 then n else duration_minutes old)"
    by (simp_all add: rescheduled_def setClause_def)
  note step = updateAppointment_by_key [OF d f own,
      of "\<lambda>a. (setClause u a)\<lparr>end_time :=
        computeEndTime
          (case u_start_time u of None \<Rightarrow> start_time old | Some t \<Rightarrow> t)
          (case u_duration_minutes u of
             None \<Rightarrow> duration_minutes old
           | Some n \<Rightarrow> if n \<noteq> 0 then n else duration_minutes old)\<rparr>", unfolded r]
  show ?thesis
    unfolding fields
    by (simp add: update_def nv tc f Let_def conflictQuery_def filter_empty_list_ex step)
qed

lemma timeClause_proper:
  "start_time a < end_time a \<Longrightarrow> p3 < p4 \<Longrightarrow>
   timeClause a p3 p4 = overlaps p3 p4 (start_time a) (end_time a)"
  by (auto simp add: timeClause_def overlaps_def)

lemma validate_passed:
  assumes "validateAppointmentData req psy now1 now2 db = Inr ()"
  shows "workStart \<le> c_start_time req" and "c_start_time req \<le> workEnd"
    and "15 \<le> c_duration_minutes req" and "c_duration_minutes req \<le> 480"
    and "patientQuery db (c_patient_id req) \<noteq> []"
    and "patientConflictQuery db (c_patient_id req) (dateOf (c_appointment_date req))
           (c_start_time req) (computeEndTime (c_start_time req) (c_duration_minutes req)) = []"
    and "psychiatristConflictQuery db psy (dateOf (c_appointment_date req))
           (c_start_time req) (computeEndTime (c_start_time req) (c_duration_minutes req)) = []"
    and "\<not> parseISO (c_appointment_date req) < now1"
    and "\<not> parseISO (c_appointment_date req) - now2 < 3600000"
  using assms by (simp_all add: validateAppointmentData_def Let_def split: if_splits)

lemma excluded_overlaps:
  assumes "excluded a b"
  shows "active a" and "active b" and "appointment_date a = appointment_date b"
    and "patient_id a = patient_id b \<or> psychiatrist_id a = psychiatrist_id b"
    and "overlaps (start_time a) (end_time a) (start_time b) (end_time b)"
  using assms
  by (auto simp add: excluded_def unique_patient_time_slot_def unique_psychiatrist_time_slot_def
      rangesOverlap_def rangeLower_def rangeUpper_def timestamptz_def overlaps_def)

text \<open>
  Claim C3, as amended. In a database reached from an empty table, a reschedule of an
  appointment of the calling psychiatrist is not gated by the status of the
  appointment. Whatever that status is: when the new interval passes the booking
  validation and both conflict queries against the other appointments, and ends within
  the working window, the reschedule succeeds and writes the row with the end time
  recomputed; it fails with the schedule conflict exactly when another appointment
  (another id) of that psychiatrist on the new date, neither cancelled nor a no-show,
  satisfies the time clause for the new start and the recomputed end; and no call of
  \<^verbatim>\<open>update\<close> fails with \<open>InvalidStatusTransition\<close>.
\<close>

theorem reschedule_ignores_status:
  assumes e: "appointments db0 = []" and reach: "performAll xs db0 = Inr db"
    and f: "findById db i = Some old" and own: "psychiatrist_id old = psy"
    and tc: "temporalChange u"
  shows "(validateAppointmentData (asBooking (rescheduled u old)) psy now1 now2
            (withoutAppointment db i) = Inr () \<and>
          start_time (rescheduled u old) + duration_minutes (rescheduled u old) \<le> workEnd \<longrightarrow>
          update i u psy db =
            Inr (Some (rescheduled u old),
                 db\<lparr>appointments :=
                   map (\<lambda>a. if appt_id a = i then rescheduled u old else a) (appointments db)\<rparr>)) \<and>
         (update i u psy db = Inl ScheduleConflict \<longleftrightarrow>
            list_ex (\<lambda>b. appt_id b \<noteq> i \<and> psychiatrist_id b = psy \<and>
                         appointment_date b = appointment_date (rescheduled u old) \<and> active b \<and>
                         timeClause b (start_time (rescheduled u old)) (end_time (rescheduled u old)))
              (appointments db)) \<and>
         (\<forall>i' u' psy' db' cur req.
            update i' u' psy' db' \<noteq> Inl (InvalidStatusTransition cur req))"
proof -
  let ?new = "rescheduled u old"
  let ?others = "filter (\<lambda>a. appt_id a \<noteq> i) (appointments db)"
  let ?clash = "list_ex (\<lambda>b. appt_id b \<noteq> i \<and> psychiatrist_id b = psy \<and>
                         appointment_date b = appointment_date ?new \<and> active b \<and>
                         timeClause b (start_time ?new) (end_time ?new))
              (appointments db)"
  from e have "tableConsistent db0" by (rule empty_table_consistent)
  from this reach have inv: "tableConsistent db" by (rule performAll_consistent)
  then have d: "distinct (map appt_id (appointments db))"
    and rc: "\<forall>a\<in>set (appointments db). rowConsistent a"
    by (simp_all add: tableConsistent_def)
  note key = update_by_key [OF d f own tc]
  have conflict: "update i u psy db = Inl ScheduleConflict \<longleftrightarrow> ?clash"
    unfolding key by (simp split: option.splits)
  have never: "\<forall>i' u' psy' db' cur req.
      update i' u' psy' db' \<noteq> Inl (InvalidStatusTransition cur req)"
    by (auto dest: update_errors)
  have accepted: "update i u psy db =
      Inr (Some ?new,
           db\<lparr>appointments := map (\<lambda>a. if appt_id a = i then ?new else a) (appointments db)\<rparr>)"
    if v: "validateAppointmentData (asBooking ?new) psy now1 now2 (withoutAppointment db i) = Inr ()"
      and w: "start_time ?new + duration_minutes ?new \<le> workEnd"
  proof -
    note p = validate_passed [OF v]
    have pid: "patient_id ?new = patient_id old" and psy: "psychiatrist_id ?new = psy"
      using own by (simp_all add: rescheduled_def setClause_def)
    have ws: "workStart \<le> start_time ?new" and dlo: "15 \<le> duration_minutes ?new"
      and dhi: "duration_minutes ?new \<le> 480"
      using p(1,3,4) by (simp_all add: asBooking_def)
    have en: "end_time ?new = computeEndTime (start_time ?new) (duration_minutes ?new)"
      using dlo by (cases "u_duration_minutes u") (auto simp add: rescheduled_def setClause_def)
    have "computeEndTime (start_time ?new) (duration_minutes ?new)
        = start_time ?new + duration_minutes ?new"
      unfolding computeEndTime_def using ws dlo w
      by (intro mod_pos_pos_trivial) (simp_all add: workStart_def workEnd_def)
    with en have sum: "end_time ?new = start_time ?new + duration_minutes ?new" by simp
    with dlo have proper: "start_time ?new < end_time ?new" by simp
    have noP: "\<not> (patient_id b = patient_id ?new \<and> appointment_date b = appointment_date ?new \<and>
                  active b \<and> timeClause b (start_time ?new) (end_time ?new))"
      and noC: "\<not> (psychiatrist_id b = psy \<and> appointment_date b = appointment_date ?new \<and>
                  active b \<and> timeClause b (start_time ?new) (end_time ?new))"
      if b: "b \<in> set ?others" for b
    proof -
      from p(6) b show "\<not> (patient_id b = patient_id ?new \<and>
          appointment_date b = appointment_date ?new \<and> active b \<and>
          timeClause b (start_time ?new) (end_time ?new))"
        by (auto simp add: patientConflictQuery_def withoutAppointment_def asBooking_def
            filter_empty_conv en)
      from p(7) b show "\<not> (psychiatrist_id b = psy \<and>
          appointment_date b = appointment_date ?new \<and> active b \<and>
          timeClause b (start_time ?new) (end_time ?new))"
        by (auto simp add: psychiatristConflictQuery_def withoutAppointment_def asBooking_def
            filter_empty_conv en)
    qed
    have "\<not> ?clash"
    proof
      assume ?clash
      then obtain b where "b \<in> set (appointments db)" "appt_id b \<noteq> i" "psychiatrist_id b = psy"
        "appointment_date b = appointment_date ?new" "active b"
        "timeClause b (start_time ?new) (end_time ?new)"
        by (auto simp add: list_ex_iff)
      with noC [of b] show False by simp
    qed
    moreover have "checkRow ?new ?others = None"
    proof -
      have "durationCheck ?new" using dlo dhi by (simp add: durationCheck_def)
      moreover have "active ?new \<longrightarrow> start_time ?new \<le> end_time ?new" using proper by simp
      moreover have "\<not> excluded ?new b" if b: "b \<in> set ?others" for b
      proof
        assume x: "excluded ?new b"
        note o = excluded_overlaps [OF x]
        from b rc have "rowConsistent b" by simp
        from this o(2) have "start_time b < end_time b" by (rule rowConsistent_proper)
        from this proper have "timeClause b (start_time ?new) (end_time ?new)
            = overlaps (start_time ?new) (end_time ?new) (start_time b) (end_time b)"
          by (rule timeClause_proper)
        with o(5) have "timeClause b (start_time ?new) (end_time ?new)" by simp
        with o(2,3,4) noP [OF b] noC [OF b] psy show False by auto
      qed
      ultimately show ?thesis by (simp add: checkRow_None)
    qed
    ultimately show ?thesis unfolding key by simp
  qed
  from accepted conflict never show ?thesis by blast
qed

text \<open>
  The amended claim at a completed appointment at 10:00 of a psychiatrist who has another
  appointment at 12:00: moving it to 11:00 succeeds, moving it to 11:30 is a schedule
  conflict.
\<close>

theorem reschedule_ignores_status_witness:
  "performAll
     [Create (booking ''pat-1'' 20002 600 60) ''dr-1'' ''a-1'' (at 20000 600) (at 20000 600),
      Create (booking ''pat-2'' 20002 720 60) ''dr-1'' ''a-2'' (at 20000 600) (at 20000 600),
      UpdateStatus ''a-1'' completed ''dr-1'']
     (exampleTable [])
   = Inr (exampleTable [exampleRow ''a-1'' ''pat-1'' ''dr-1'' 20002 600 60 completed,
                        exampleRow ''a-2'' ''pat-2'' ''dr-1'' 20002 720 60 scheduled]) \<and>
   update ''a-1'' (noChanges\<lparr>u_start_time := Some 660\<rparr>) ''dr-1''
       (exampleTable [exampleRow ''a-1'' ''pat-1'' ''dr-1'' 20002 600 60 completed,
                      exampleRow ''a-2'' ''pat-2'' ''dr-1'' 20002 720 60 scheduled])
     = Inr (Some (exampleRow ''a-1'' ''pat-1'' ''dr-1'' 20002 660 60 completed),
            exampleTable [exampleRow ''a-1'' ''pat-1'' ''dr-1'' 20002 660 60 completed,
                          exampleRow ''a-2'' ''pat-2'' ''dr-1'' 20002 720 60 scheduled]) \<and>
   update ''a-1'' (noChanges\<lparr>u_start_time := Some 690\<rparr>) ''dr-1''
       (exampleTable [exampleRow ''a-1'' ''pat-1'' ''dr-1'' 20002 600 60 completed,
                      exampleRow ''a-2'' ''pat-2'' ''dr-1'' 20002 720 60 scheduled])
     = Inl ScheduleConflict"
proof -
  let ?old = "exampleRow ''a-1'' ''pat-1'' ''dr-1'' 20002 600 60 completed"
  let ?other = "exampleRow ''a-2'' ''pat-2'' ''dr-1'' 20002 720 60 scheduled"
  let ?db = "exampleTable [?old, ?other]"
  let ?u = "noChanges\<lparr>u_start_time := Some 660\<rparr>"
  let ?v = "noChanges\<lparr>u_start_time := Some 690\<rparr>"
  have e: "appointments (exampleTable []) = []"
    by (simp add: exampleTable_def)
  have run: "performAll
     [Create (booking ''pat-1'' 20002 600 60) ''dr-1'' ''a-1'' (at 20000 600) (at 20000 600),
      Create (booking ''pat-2'' 20002 720 60) ''dr-1'' ''a-2'' (at 20000 600) (at 20000 600),
      UpdateStatus ''a-1'' completed ''dr-1'']
     (exampleTable []) = Inr ?db"
    by code_simp
  have f: "findById ?db ''a-1'' = Some ?old"
    by code_simp
  have own: "psychiatrist_id ?old = ''dr-1''"
    by (simp add: exampleRow_def)
  have tc: "temporalChange ?u" "temporalChange ?v"
    by (simp_all add: temporalChange_def noChanges_def)
  have ok: "validateAppointmentData (asBooking (rescheduled ?u ?old)) ''dr-1'' (at 20000 600)
      (at 20000 600) (withoutAppointment ?db ''a-1'') = Inr () \<and>
      start_time (rescheduled ?u ?old) + duration_minutes (rescheduled ?u ?old) \<le> workEnd"
    by code_simp
  have new: "Inr (Some (rescheduled ?u ?old),
        ?db\<lparr>appointments :=
          map (\<lambda>a. if appt_id a = ''a-1'' then rescheduled ?u ?old else a) (appointments ?db)\<rparr>)
      = (Inr (Some (exampleRow ''a-1'' ''pat-1'' ''dr-1'' 20002 660 60 completed),
            exampleTable [exampleRow ''a-1'' ''pat-1'' ''dr-1'' 20002 660 60 completed, ?other])
          :: error + appointment option \<times> database)"
    by code_simp
  have clash: "list_ex (\<lambda>b. appt_id b \<noteq> ''a-1'' \<and> psychiatrist_id b = ''dr-1'' \<and>
                 appointment_date b = appointment_date (rescheduled ?v ?old) \<and> active b \<and>
                 timeClause b (start_time (rescheduled ?v ?old)) (end_time (rescheduled ?v ?old)))
        (appointments ?db)"
    by code_simp
  from reschedule_ignores_status [OF e run f own tc(1), of "at 20000 600" "at 20000 600"] ok new
  have a: "update ''a-1'' ?u ''dr-1'' ?db
      = Inr (Some (exampleRow ''a-1'' ''pat-1'' ''dr-1'' 20002 660 60 completed),
            exampleTable [exampleRow ''a-1'' ''pat-1'' ''dr-1'' 20002 660 60 completed, ?other])"
    by simp
  from reschedule_ignores_status [OF e run f own tc(2), of "at 20000 600" "at 20000 600"] clash
  have b: "update ''a-1'' ?v ''dr-1'' ?db = Inl ScheduleConflict"
    by blast
  from run a b show ?thesis by blast
qed

text \<open>
  Claim C3 as stated fails: the reschedule of a completed appointment from 10:00 to
  11:00 succeeds, where the claim requires \<open>InvalidStatusTransition\<close>.
\<close>

theorem reschedule_counterexample:
  "update ''a-1'' (noChanges\<lparr>u_start_time := Some 660\<rparr>) ''dr-1''
       (exampleTable [exampleRow ''a-1'' ''pat-1'' ''dr-1'' 20002 600 60 completed])
     = Inr (Some (exampleRow ''a-1'' ''pat-1'' ''dr-1'' 20002 660 60 completed),
            exampleTable [exampleRow ''a-1'' ''pat-1'' ''dr-1'' 20002 660 60 completed])"
  by code_simp

subsection \<open>The overlap tests\<close>

text \<open>
  Claim C4, as amended. The test of the availability loop is the half-open predicate
  \<open>overlaps\<close>. The time clause of the conflict queries agrees with \<open>overlaps\<close> whenever
  the stored interval and the candidate both have their start before their end; for such
  intervals, one that ends exactly when the other starts is no conflict for either test.
\<close>

theorem overlap_tests_half_open:
  assumes "start_time a < end_time a" and "p3 < p4"
  shows "timeClause a p3 p4 = overlaps p3 p4 (start_time a) (end_time a) \<and>
         hasConflict [a] p3 (p4 - p3) = overlaps p3 p4 (start_time a) (end_time a) \<and>
         (end_time a = p3 \<or> p4 = start_time a \<longrightarrow>
            \<not> timeClause a p3 p4 \<and> \<not> hasConflict [a] p3 (p4 - p3))"
  using assms by (auto simp add: timeClause_def overlaps_def hasConflict_def)

text \<open>
  The amended claim at a booking from 10:00 to 11:00 and a candidate from 11:00 to 11:30.
\<close>

theorem overlap_tests_half_open_witness:
  "start_time (exampleRow ''a-1'' ''pat-1'' ''dr-1'' 20002 600 60 confirmed)
     < end_time (exampleRow ''a-1'' ''pat-1'' ''dr-1'' 20002 600 60 confirmed) \<and>
   (660 :: int) < 690 \<and>
   \<not> timeClause (exampleRow ''a-1'' ''pat-1'' ''dr-1'' 20002 600 60 confirmed) 660 690 \<and>
   \<not> hasConflict [exampleRow ''a-1'' ''pat-1'' ''dr-1'' 20002 600 60 confirmed] 660 (690 - 660)"
proof -
  let ?a = "exampleRow ''a-1'' ''pat-1'' ''dr-1'' 20002 600 60 confirmed"
  have lt: "start_time ?a < end_time ?a"
    by (simp add: exampleRow_def computeEndTime_def)
  have touch: "end_time ?a = 660"
    by (simp add: exampleRow_def computeEndTime_def)
  have lt': "(660 :: int) < 690"
    by simp
  from overlap_tests_half_open [OF lt lt'] touch lt lt' show ?thesis
    by blast
qed

text \<open>
  Claim C4 as stated fails where the computed end of the candidate wraps past midnight.
  An appointment is booked for 09:00 and then moved to 03:00 (an update checks no
  working hours), so it runs from 03:00 to 05:00. A request for the same patient and
  day at 20:00 for 480 minutes gets the end time 04:00 and is refused with the patient
  conflict, although the half-open predicate holds neither for the pair of times the
  query receives nor for the interval from 20:00 on the minute scale.
\<close>

theorem overlap_tests_counterexample:
  "create (booking ''pat-1'' 20002 540 120) ''dr-1'' ''a-1'' (at 20000 600) (at 20000 600)
       (exampleTable [])
     = Inr (exampleRow ''a-1'' ''pat-1'' ''dr-1'' 20002 540 120 scheduled,
            exampleTable [exampleRow ''a-1'' ''pat-1'' ''dr-1'' 20002 540 120 scheduled]) \<and>
   update ''a-1'' (noChanges\<lparr>u_start_time := Some 180\<rparr>) ''dr-1''
       (exampleTable [exampleRow ''a-1'' ''pat-1'' ''dr-1'' 20002 540 120 scheduled])
     = Inr (Some (exampleRow ''a-1'' ''pat-1'' ''dr-1'' 20002 180 120 scheduled),
            exampleTable [exampleRow ''a-1'' ''pat-1'' ''dr-1'' 20002 180 120 scheduled]) \<and>
   validateAppointmentData (booking ''pat-1'' 20002 1200 480) ''dr-2'' (at 20000 600) (at 20000 600)
       (exampleTable [exampleRow ''a-1'' ''pat-1'' ''dr-1'' 20002 180 120 scheduled])
     = Inl PatientConflict \<and>
   computeEndTime 1200 480 = 240 \<and>
   \<not> overlaps 1200 240 180 300 \<and>
   \<not> overlaps 1200 (1200 + 480) 180 300"
  by code_simp

subsection \<open>The order of the validation checks\<close>

text \<open>
  Claim C8, as amended. The error of a booking candidate is that of the first violated
  check in the order past date, working hours, minimum duration, maximum duration,
  patient active, patient conflict, psychiatrist conflict, lead time; no later check
  is consulted.
\<close>

theorem validation_order:
  "validateAppointmentData req psy now1 now2 db =
     firstViolation (checksInOrder req psy now1 now2 db)"
  by (simp add: validateAppointmentData_def firstViolation_def checksInOrder_def Let_def
      patientQuery_def patientConflictQuery_def psychiatristConflictQuery_def
      filter_empty_list_ex)

text \<open>
  The amended order at a candidate that violates the last two of its checks only: the
  psychiatrist is busy and the day starts in half an hour.
\<close>

theorem validation_order_witness:
  "validateAppointmentData (booking ''pat-2'' 20001 600 30) ''dr-1'' (at 20000 1410) (at 20000 1410)
       (exampleTable [exampleRow ''a-1'' ''pat-1'' ''dr-1'' 20001 600 60 confirmed])
     = Inl ClinicianConflict"
proof -
  have "firstViolation (checksInOrder (booking ''pat-2'' 20001 600 30) ''dr-1''
          (at 20000 1410) (at 20000 1410)
          (exampleTable [exampleRow ''a-1'' ''pat-1'' ''dr-1'' 20001 600 60 confirmed]))
        = Inl ClinicianConflict"
    by code_simp
  then show ?thesis
    by (simp only: validation_order)
qed

text \<open>
  Claim C8 as stated (duration, then working hours, then past date, then lead time)
  fails: a candidate on a past day at 07:00 is refused for the past date, not for the
  working hours, and the candidate of the claim, 5 minutes long at 07:00 on a future
  day, is refused for the working hours, not for its duration.
\<close>

theorem validation_order_counterexample:
  "c_start_time (booking ''pat-1'' 19999 420 30) < workStart \<and>
   validateAppointmentData (booking ''pat-1'' 19999 420 30) ''dr-1'' (at 20000 600) (at 20000 600)
       (exampleTable [])
     = Inl PastDate \<and>
   c_duration_minutes (booking ''pat-1'' 20002 420 5) < 15 \<and>
   validateAppointmentData (booking ''pat-1'' 20002 420 5) ''dr-1'' (at 20000 600) (at 20000 600)
       (exampleTable [])
     = Inl OutsideWorkingHours"
  by code_simp

subsection \<open>Past dates and lead time\<close>

text \<open>
  Claim C6 at a failing input. The two checks read \<^verbatim>\<open>parseISO(appointment_date)\<close>, the
  midnight that starts the day, and never the start time. At 10:00 on day 20000 a
  booking for 18:00 of the same day is refused as a past date; at 23:30 a booking for
  09:00 of the next day, nine and a half hours ahead, is refused for its lead time.
\<close>

theorem booking_today_refused_as_past:
  "at 20000 600 < at 20000 1080 \<and>
   validateAppointmentData (booking ''pat-1'' 20000 1080 60) ''dr-1'' (at 20000 600) (at 20000 600)
       (exampleTable [])
     = Inl PastDate \<and>
   at 20001 540 - at 20000 1410 \<ge> 60 * 60000 \<and>
   validateAppointmentData (booking ''pat-1'' 20001 540 60) ''dr-1'' (at 20000 1410) (at 20000 1410)
       (exampleTable [])
     = Inl InsufficientLeadTime"
  by code_simp

subsection \<open>Working hours\<close>

text \<open>
  Claim C7 at a failing input. The working-hours check reads the start time only. A
  booking at 19:30 for 60 minutes is created with the end time 20:30, after the end of
  the working window. A booking at 20:00 for 480 minutes passes the whole validation
  with the end time wrapped to 04:00; the insert then fails in the database, which
  cannot build a range whose end precedes its start.
\<close>

theorem booking_past_window_end_accepted:
  "create (booking ''pat-1'' 20002 1170 60) ''dr-1'' ''a-1'' (at 20000 600) (at 20000 600)
       (exampleTable [])
     = Inr (exampleRow ''a-1'' ''pat-1'' ''dr-1'' 20002 1170 60 scheduled,
            exampleTable [exampleRow ''a-1'' ''pat-1'' ''dr-1'' 20002 1170 60 scheduled]) \<and>
   workEnd < end_time (exampleRow ''a-1'' ''pat-1'' ''dr-1'' 20002 1170 60 scheduled) \<and>
   validateAppointmentData (booking ''pat-1'' 20002 1200 480) ''dr-1'' (at 20000 600) (at 20000 600)
       (exampleTable [])
     = Inr () \<and>
   computeEndTime 1200 480 = 240 \<and>
   create (booking ''pat-1'' 20002 1200 480) ''dr-1'' ''a-1'' (at 20000 600) (at 20000 600)
       (exampleTable [])
     = Inl (StoreError RangeBoundsError)"
  by code_simp

subsection \<open>The availability query\<close>

text \<open>The start times of the loop: \<open>start\<close>, \<open>start + 30\<close>, and so on.\<close>

lemma grid_step:
  "(\<exists>k::nat. s = st + 30 * int k) \<longleftrightarrow> s = st \<or> (\<exists>k::nat. s = (st + 30) + 30 * int k)"
proof
  assume "\<exists>k::nat. s = st + 30 * int k"
  then obtain k :: nat where k: "s = st + 30 * int k" by blast
  show "s = st \<or> (\<exists>k::nat. s = (st + 30) + 30 * int k)"
  proof (cases k)
    case 0
    with k show ?thesis by simp
  next
    case (Suc j)
    with k have "s = (st + 30) + 30 * int j" by simp
    then show ?thesis by blast
  qed
next
  assume "s = st \<or> (\<exists>k::nat. s = (st + 30) + 30 * int k)"
  then consider "s = st" | k :: nat where "s = (st + 30) + 30 * int k" by blast
  then show "\<exists>k::nat. s = st + 30 * int k"
  proof cases
    case 1
    then have "s = st + 30 * int 0" by simp
    then show ?thesis by blast
  next
    case 2
    then have "s = st + 30 * int (Suc k)" by simp
    then show ?thesis by blast
  qed
qed

lemma availabilityLoop_starts:
  "\<exists>L. availabilityLoop start n ex = map minutesToTime L \<and> sorted_wrt (<) L \<and>
       set L = {s. (\<exists>k::nat. s = start + 30 * int k) \<and> s \<le> workEnd - n \<and> \<not> hasConflict ex s n}"
proof (induction start n ex rule: availabilityLoop.induct)
  case (1 start n ex)
  let ?S = "\<lambda>st. {s. (\<exists>k::nat. s = st + 30 * int k) \<and> s \<le> workEnd - n \<and> \<not> hasConflict ex s n}"
  show ?case
  proof (cases "start \<le> workEnd - n")
    case False
    then have "availabilityLoop start n ex = []"
      by (subst availabilityLoop.simps) simp
    moreover from False have "?S start = {}"
      by auto
    ultimately show ?thesis
      by (intro exI [of _ "[]"]) simp
  next
    case True
    have later: "\<And>s. s \<in> ?S (start + 30) \<Longrightarrow> start < s"
      by auto
    show ?thesis
    proof (cases "hasConflict ex start n")
      case False
      from "1.IH"(1) [OF True False] obtain L where
        L: "availabilityLoop (start + 30) n ex = map minutesToTime L" "sorted_wrt (<) L"
           "set L = ?S (start + 30)" by blast
      have "availabilityLoop start n ex = map minutesToTime (start # L)"
        using True False L(1) by (subst availabilityLoop.simps) simp
      moreover have "sorted_wrt (<) (start # L)"
        using L(2,3) later by simp
      moreover have "set (start # L) = ?S start"
        using L(3) True False by (auto simp add: grid_step [of _ start])
      ultimately show ?thesis by blast
    next
      case conflict: True
      from "1.IH"(2) [OF True] conflict obtain L where
        L: "availabilityLoop (start + 30) n ex = map minutesToTime L" "sorted_wrt (<) L"
           "set L = ?S (start + 30)" by blast
      have "availabilityLoop start n ex = map minutesToTime L"
        using True conflict L(1) by (subst availabilityLoop.simps) simp
      moreover have "set L = ?S start"
        using L(3) True conflict by (auto simp add: grid_step [of _ start])
      ultimately show ?thesis using L(2) by blast
    qed
  qed
qed

lemma hasConflict_existing:
  "hasConflict (existingAppointmentsQuery db d psy) s n \<longleftrightarrow>
     (\<exists>a\<in>set (appointments db). appointment_date a = d \<and> psychiatrist_id a = psy \<and> active a \<and>
        overlaps s (s + n) (start_time a) (end_time a))"
  by (auto simp add: hasConflict_overlaps existingAppointmentsQuery_def list_ex_iff)

text \<open>
  Claim C5. The availability query returns the formatted start times of a strictly
  ascending list whose members are exactly the times \<open>workStart + 30 * k\<close> up to
  \<open>workEnd - durationMinutes\<close> inclusive whose interval overlaps (half-open) no
  appointment of that psychiatrist and date that is neither cancelled nor a no-show;
  when the duration exceeds the length of the window the list is empty.
\<close>

theorem availability_slots:
  "\<exists>L. getAvailability d psy n db = map minutesToTime L \<and> sorted_wrt (<) L \<and>
     set L = {s. (\<exists>k::nat. s = workStart + 30 * int k) \<and> s \<le> workEnd - n \<and>
                 (\<forall>a\<in>set (appointments db).
                    appointment_date a = d \<and> psychiatrist_id a = psy \<and> active a \<longrightarrow>
                    \<not> overlaps s (s + n) (start_time a) (end_time a))} \<and>
     (workEnd - workStart < n \<longrightarrow> L = [])"
proof -
  from availabilityLoop_starts [of workStart n "existingAppointmentsQuery db d psy"]
  obtain L where L: "getAvailability d psy n db = map minutesToTime L" "sorted_wrt (<) L"
    "set L = {s. (\<exists>k::nat. s = workStart + 30 * int k) \<and> s \<le> workEnd - n \<and>
        \<not> hasConflict (existingAppointmentsQuery db d psy) s n}"
    unfolding getAvailability_def by blast
  have "set L = {s. (\<exists>k::nat. s = workStart + 30 * int k) \<and> s \<le> workEnd - n \<and>
                 (\<forall>a\<in>set (appointments db).
                    appointment_date a = d \<and> psychiatrist_id a = psy \<and> active a \<longrightarrow>
                    \<not> overlaps s (s + n) (start_time a) (end_time a))}"
    unfolding L(3) hasConflict_existing by blast
  moreover have "L = []" if "workEnd - workStart < n"
  proof -
    from that have "set L = {}" unfolding L(3) by auto
    then show ?thesis by simp
  qed
  ultimately show ?thesis using L(1,2) by blast
qed

text \<open>
  The claim at a psychiatrist with one booking from 10:00 to 11:00 and a duration of
  30 minutes: 09:30 and 11:00 are returned, 10:00 and 10:30 are not, the last slot is
  19:30; and at a duration of 721 minutes.
\<close>

theorem availability_slots_witness:
  "getAvailability 20002 ''dr-1'' 30
       (exampleTable [exampleRow ''a-1'' ''pat-1'' ''dr-1'' 20002 600 60 confirmed])
     = [''08:00'', ''08:30'', ''09:00'', ''09:30'', ''11:00'', ''11:30'', ''12:00'', ''12:30'',
        ''13:00'', ''13:30'', ''14:00'', ''14:30'', ''15:00'', ''15:30'', ''16:00'', ''16:30'',
        ''17:00'', ''17:30'', ''18:00'', ''18:30'', ''19:00'', ''19:30''] \<and>
   (\<exists>L. getAvailability 20002 ''dr-1'' 30
            (exampleTable [exampleRow ''a-1'' ''pat-1'' ''dr-1'' 20002 600 60 confirmed])
          = map minutesToTime L \<and>
        sorted_wrt (<) L \<and> 570 \<in> set L \<and> 600 \<notin> set L \<and> 630 \<notin> set L \<and> 660 \<in> set L \<and>
        1170 \<in> set L \<and> 1200 \<notin> set L) \<and>
   getAvailability 20002 ''dr-1'' 721
       (exampleTable [exampleRow ''a-1'' ''pat-1'' ''dr-1'' 20002 600 60 confirmed]) = []"
proof -
  let ?db = "exampleTable [exampleRow ''a-1'' ''pat-1'' ''dr-1'' 20002 600 60 confirmed]"
  have list: "getAvailability 20002 ''dr-1'' 30 ?db
     = [''08:00'', ''08:30'', ''09:00'', ''09:30'', ''11:00'', ''11:30'', ''12:00'', ''12:30'',
        ''13:00'', ''13:30'', ''14:00'', ''14:30'', ''15:00'', ''15:30'', ''16:00'', ''16:30'',
        ''17:00'', ''17:30'', ''18:00'', ''18:30'', ''19:00'', ''19:30'']"
    by code_simp
  from availability_slots [of 20002 "''dr-1''" 30 ?db] obtain L where
    L: "getAvailability 20002 ''dr-1'' 30 ?db = map minutesToTime L" "sorted_wrt (<) L"
       "set L = {s. (\<exists>k::nat. s = workStart + 30 * int k) \<and> s \<le> workEnd - 30 \<and>
                 (\<forall>a\<in>set (appointments ?db).
                    appointment_date a = 20002 \<and> psychiatrist_id a = ''dr-1'' \<and> active a \<longrightarrow>
                    \<not> overlaps s (s + 30) (start_time a) (end_time a))}"
    by blast
  have grid: "\<exists>k::nat. (570::int) = workStart + 30 * int k" "\<exists>k::nat. (660::int) = workStart + 30 * int k"
    "\<exists>k::nat. (1170::int) = workStart + 30 * int k"
    by (rule exI [of _ 3], simp add: workStart_def, rule exI [of _ 6], simp add: workStart_def,
        rule exI [of _ 23], simp add: workStart_def)
  have "570 \<in> set L" "660 \<in> set L" "1170 \<in> set L" "600 \<notin> set L" "630 \<notin> set L" "1200 \<notin> set L"
    unfolding L(3) using grid
    by (simp_all add: exampleTable_def exampleRow_def overlaps_def computeEndTime_def workEnd_def
        active_def)
  moreover from availability_slots [of 20002 "''dr-1''" 721 ?db]
  have "getAvailability 20002 ''dr-1'' 721 ?db = []"
    by (auto simp add: workStart_def workEnd_def)
  ultimately show ?thesis using list L(1,2) by blast
qed

subsection \<open>Time strings\<close>

text \<open>
  \<^verbatim>\<open>timeToMinutes\<close> reads back what \<^verbatim>\<open>minutesToTime\<close> writes: a slot of the availability
  query, sent as the start time of a request, is the minute count it was computed from.
\<close>

lemma digit_code: "k < 10 \<Longrightarrow> (of_char (digit k) :: nat) = 48 + k"
proof -
  assume "k < 10"
  then have "k = 0 \<or> k = 1 \<or> k = 2 \<or> k = 3 \<or> k = 4 \<or> k = 5 \<or> k = 6 \<or> k = 7 \<or> k = 8 \<or> k = 9"
    by arith
  then show ?thesis
    by (elim disjE) (simp_all add: digit_def)
qed

lemma isDigit_digit: "k < 10 \<Longrightarrow> isDigit (digit k)"
  by (simp add: isDigit_def digit_code)

lemma not_colon_digit: "isDigit c \<Longrightarrow> c \<noteq> CHR '':''"
  by (auto simp add: isDigit_def)

lemma toString_digits: "list_all isDigit (toString n)"
proof (induction n rule: toString.induct)
  case (1 n)
  show ?case
  proof (cases "n < 10")
    case True
    then show ?thesis by (subst toString.simps) (simp add: isDigit_digit)
  next
    case False
    with "1.IH" show ?thesis by (subst toString.simps) (simp add: isDigit_digit)
  qed
qed

lemma toString_value:
  "foldl (\<lambda>n c. 10 * n + ((of_char c :: nat) - 48)) 0 (toString n) = n"
proof (induction n rule: toString.induct)
  case (1 n)
  show ?case
  proof (cases "n < 10")
    case True
    then show ?thesis by (subst toString.simps) (simp add: digit_code)
  next
    case False
    with "1.IH" show ?thesis by (subst toString.simps) (simp add: digit_code)
  qed
qed

lemma zeros_value:
  "foldl (\<lambda>n c. 10 * n + ((of_char c :: nat) - 48)) 0 (replicate k (CHR ''0'')) = 0"
  by (induction k) simp_all

lemma zero_isDigit: "isDigit (CHR ''0'')"
  by (simp add: isDigit_def)

lemma padStart2_digits: "list_all isDigit (padStart2 (toString n))"
  using toString_digits [of n] by (simp add: padStart2_def zero_isDigit list_all_length nth_append)

lemma padStart2_value:
  "foldl (\<lambda>n c. 10 * n + ((of_char c :: nat) - 48)) 0 (padStart2 (toString n)) = n"
  unfolding padStart2_def foldl_append zeros_value by (rule toString_value)

lemma Number_padStart2: "Number (padStart2 (toString n)) = Some n"
  unfolding Number_def using padStart2_digits [of n] padStart2_value [of n] by simp

lemma splitOn_none: "c \<notin> set s \<Longrightarrow> splitOn c s = [s]"
  by (induction s) auto

lemma splitOn_field: "c \<notin> set a \<Longrightarrow> splitOn c (a @ c # b) = a # splitOn c b"
  by (induction a) auto

lemma timeToMinutes_minutesToTime:
  assumes "0 \<le> m"
  shows "timeToMinutes (minutesToTime m) = Some m"
proof -
  let ?h = "padStart2 (toString (nat (m div 60)))"
  let ?r = "padStart2 (toString (nat (m mod 60)))"
  have nc: "CHR '':'' \<notin> set ?h" "CHR '':'' \<notin> set ?r"
    using padStart2_digits [of "nat (m div 60)"] padStart2_digits [of "nat (m mod 60)"]
    by (auto simp add: list_all_iff dest: not_colon_digit)
  have "splitOn (CHR '':'') (minutesToTime m) = [?h, ?r]"
    by (simp add: minutesToTime_def splitOn_field [OF nc(1)] splitOn_none [OF nc(2)])
  moreover from assms have "int (nat (m div 60) * 60 + nat (m mod 60)) = m"
    by (simp add: pos_imp_zdiv_nonneg_iff)
  ultimately show ?thesis
    by (simp add: timeToMinutes_def Number_padStart2)
qed

subsection \<open>Availability and the clock\<close>

lemma validate_short_notice:
  "parseISO (c_appointment_date req) - now2 < 3600000 \<Longrightarrow>
   \<exists>e. validateAppointmentData req psy now1 now2 db = Inl e"
  by (simp add: validateAppointmentData_def Let_def)

lemma getAvailability_starts:
  "\<exists>L. getAvailability d psy n db = map minutesToTime L \<and>
     set L = {s. (\<exists>k::nat. s = workStart + 30 * int k) \<and> s \<le> workEnd - n \<and>
                 (\<forall>a\<in>set (appointments db).
                    appointment_date a = d \<and> psychiatrist_id a = psy \<and> active a \<longrightarrow>
                    \<not> overlaps s (s + n) (start_time a) (end_time a))}"
proof -
  from availabilityLoop_starts [of workStart n "existingAppointmentsQuery db d psy"]
  obtain L where L: "getAvailability d psy n db = map minutesToTime L"
    "set L = {s. (\<exists>k::nat. s = workStart + 30 * int k) \<and> s \<le> workEnd - n \<and>
        \<not> hasConflict (existingAppointmentsQuery db d psy) s n}"
    unfolding getAvailability_def by blast
  have "set L = {s. (\<exists>k::nat. s = workStart + 30 * int k) \<and> s \<le> workEnd - n \<and>
                 (\<forall>a\<in>set (appointments db).
                    appointment_date a = d \<and> psychiatrist_id a = psy \<and> active a \<longrightarrow>
                    \<not> overlaps s (s + n) (start_time a) (end_time a))}"
    unfolding L(2) hasConflict_existing by blast
  with L(1) show ?thesis by blast
qed

text \<open>
  Claim C10. The availability query reads no clock: a time string is returned exactly
  when it is the format of a start time \<open>workStart + 30 * k\<close>, up to
  \<open>workEnd - durationMinutes\<close>, whose interval overlaps no appointment of that
  psychiatrist and date that is neither cancelled nor a no-show. So it returns slots
  that \<^verbatim>\<open>create\<close> refuses: every returned slot reads back as a start time for which a
  booking on that date is refused as a past date once the midnight that starts the day
  has passed, and is refused whenever less than an hour is left until the instant of
  its \<^verbatim>\<open>appointment_date\<close>.
\<close>

theorem availability_ignores_clock:
  "(\<forall>slot. slot \<in> set (getAvailability d psy n db) \<longleftrightarrow>
      (\<exists>s. slot = minutesToTime s \<and> (\<exists>k::nat. s = workStart + 30 * int k) \<and>
           s \<le> workEnd - n \<and>
           (\<forall>a\<in>set (appointments db).
              appointment_date a = d \<and> psychiatrist_id a = psy \<and> active a \<longrightarrow>
              \<not> overlaps s (s + n) (start_time a) (end_time a)))) \<and>
   (\<forall>slot\<in>set (getAvailability d psy n db).
      \<exists>s. timeToMinutes slot = Some s \<and>
        (\<forall>req psy' newId now1 now2.
           c_appointment_date req = DateOnly d \<and> c_start_time req = s \<and> midnight d < now1 \<longrightarrow>
           create req psy' newId now1 now2 db = Inl PastDate) \<and>
        (\<forall>req psy' newId now1 now2.
           dateOf (c_appointment_date req) = d \<and> c_start_time req = s \<and>
           parseISO (c_appointment_date req) - now2 < 3600000 \<longrightarrow>
           (\<exists>e. create req psy' newId now1 now2 db = Inl e)))"
proof -
  from getAvailability_starts [of d psy n db] obtain L where
    L: "getAvailability d psy n db = map minutesToTime L"
    and S: "set L = {s. (\<exists>k::nat. s = workStart + 30 * int k) \<and> s \<le> workEnd - n \<and>
                 (\<forall>a\<in>set (appointments db).
                    appointment_date a = d \<and> psychiatrist_id a = psy \<and> active a \<longrightarrow>
                    \<not> overlaps s (s + n) (start_time a) (end_time a))}"
    by blast
  have mem: "slot \<in> set (getAvailability d psy n db) \<longleftrightarrow> (\<exists>s\<in>set L. slot = minutesToTime s)" for slot
    unfolding L by auto
  have part1: "\<forall>slot. slot \<in> set (getAvailability d psy n db) \<longleftrightarrow>
      (\<exists>s. slot = minutesToTime s \<and> (\<exists>k::nat. s = workStart + 30 * int k) \<and>
           s \<le> workEnd - n \<and>
           (\<forall>a\<in>set (appointments db).
              appointment_date a = d \<and> psychiatrist_id a = psy \<and> active a \<longrightarrow>
              \<not> overlaps s (s + n) (start_time a) (end_time a)))"
    unfolding mem S by blast
  have part2: "\<exists>s. timeToMinutes slot = Some s \<and>
        (\<forall>req psy' newId now1 now2.
           c_appointment_date req = DateOnly d \<and> c_start_time req = s \<and> midnight d < now1 \<longrightarrow>
           create req psy' newId now1 now2 db = Inl PastDate) \<and>
        (\<forall>req psy' newId now1 now2.
           dateOf (c_appointment_date req) = d \<and> c_start_time req = s \<and>
           parseISO (c_appointment_date req) - now2 < 3600000 \<longrightarrow>
           (\<exists>e. create req psy' newId now1 now2 db = Inl e))"
    if "slot \<in> set (getAvailability d psy n db)" for slot
  proof -
    from that mem obtain s where s: "s \<in> set L" "slot = minutesToTime s" by blast
    from s(1) S obtain k :: nat where "s = workStart + 30 * int k" by blast
    then have "0 \<le> s" by (simp add: workStart_def)
    with s(2) have t: "timeToMinutes slot = Some s"
      by (simp add: timeToMinutes_minutesToTime)
    have past: "create req psy' newId now1 now2 db = Inl PastDate"
      if "c_appointment_date req = DateOnly d \<and> c_start_time req = s \<and> midnight d < now1"
      for req psy' newId now1 now2
      using that by (simp add: create_def validate_past)
    have short: "\<exists>e. create req psy' newId now1 now2 db = Inl e"
      if "dateOf (c_appointment_date req) = d \<and> c_start_time req = s \<and>
           parseISO (c_appointment_date req) - now2 < 3600000"
      for req psy' newId now1 now2
    proof -
      from that validate_short_notice [of req now2 psy' now1 db]
      obtain e where "validateAppointmentData req psy' now1 now2 db = Inl e" by blast
      then show ?thesis by (simp add: create_def)
    qed
    from t past short show ?thesis by blast
  qed
  from part1 part2 show ?thesis by blast
qed

text \<open>
  The claim at 12:00 on day 20000, for a psychiatrist with a booking from 10:00 to
  11:00 on that day and a duration of 60 minutes: 08:00 is returned, four hours in the
  past, and a booking for it is refused as a past date; 10:00 is not returned; 12:30 is
  returned, and a booking whose date string carries the time 12:30 is refused for its
  lead time.
\<close>

theorem availability_ignores_clock_witness:
  "''08:00'' \<in> set (getAvailability 20000 ''dr-1'' 60
       (exampleTable [exampleRow ''a-1'' ''pat-1'' ''dr-1'' 20000 600 60 confirmed])) \<and>
   ''10:00'' \<notin> set (getAvailability 20000 ''dr-1'' 60
       (exampleTable [exampleRow ''a-1'' ''pat-1'' ''dr-1'' 20000 600 60 confirmed])) \<and>
   timeToMinutes ''08:00'' = Some 480 \<and>
   at 20000 480 < at 20000 720 \<and>
   create (booking ''pat-2'' 20000 480 60) ''dr-1'' ''a-2'' (at 20000 720) (at 20000 720)
       (exampleTable [exampleRow ''a-1'' ''pat-1'' ''dr-1'' 20000 600 60 confirmed])
     = Inl PastDate \<and>
   ''12:30'' \<in> set (getAvailability 20000 ''dr-1'' 60
       (exampleTable [exampleRow ''a-1'' ''pat-1'' ''dr-1'' 20000 600 60 confirmed])) \<and>
   timeToMinutes ''12:30'' = Some 750 \<and>
   create ((booking ''pat-2'' 20000 750 60)\<lparr>c_appointment_date := DateTime 20000 (750 * 60000)\<rparr>)
       ''dr-1'' ''a-2'' (at 20000 720) (at 20000 720)
       (exampleTable [exampleRow ''a-1'' ''pat-1'' ''dr-1'' 20000 600 60 confirmed])
     = Inl InsufficientLeadTime"
proof -
  let ?db = "exampleTable [exampleRow ''a-1'' ''pat-1'' ''dr-1'' 20000 600 60 confirmed]"
  have m: "''08:00'' \<in> set (getAvailability 20000 ''dr-1'' 60 ?db)"
    by code_simp
  have t: "timeToMinutes ''08:00'' = Some 480"
    by code_simp
  have rest: "''10:00'' \<notin> set (getAvailability 20000 ''dr-1'' 60 ?db) \<and>
      at 20000 480 < at 20000 720 \<and>
      ''12:30'' \<in> set (getAvailability 20000 ''dr-1'' 60 ?db) \<and>
      timeToMinutes ''12:30'' = Some 750 \<and>
      create ((booking ''pat-2'' 20000 750 60)\<lparr>c_appointment_date := DateTime 20000 (750 * 60000)\<rparr>)
        ''dr-1'' ''a-2'' (at 20000 720) (at 20000 720) ?db = Inl InsufficientLeadTime"
    by code_simp
  have h: "c_appointment_date (booking ''pat-2'' 20000 480 60) = DateOnly 20000 \<and>
      c_start_time (booking ''pat-2'' 20000 480 60) = 480 \<and> midnight 20000 < at 20000 720"
    by (simp add: booking_def at_def)
  from availability_ignores_clock [of 20000 "''dr-1''" 60 ?db] m
  obtain s where s: "timeToMinutes ''08:00'' = Some s"
    and p: "\<forall>req psy' newId now1 now2.
           c_appointment_date req = DateOnly 20000 \<and> c_start_time req = s \<and> midnight 20000 < now1 \<longrightarrow>
           create req psy' newId now1 now2 ?db = Inl PastDate"
    by blast
  from s t have "s = 480" by simp
  with p h have "create (booking ''pat-2'' 20000 480 60) ''dr-1'' ''a-2'' (at 20000 720) (at 20000 720) ?db
      = Inl PastDate"
    by blast
  with m t rest show ?thesis by blast
qed

subsection \<open>Two calls of create for one slot\<close>








text \<open>The four statements of one call, run in a row, are \<^verbatim>\<open>create\<close>.\<close>

lemma create_in_steps:
  "race A B [True, True, True, True] db =
     (case createCall A db of
        Inl e \<Rightarrow> (Returned (Inl e), AtPatientQuery, db)
      | Inr r \<Rightarrow> (Returned (Inr (fst r)), AtPatientQuery, snd r))"
  by (simp add: race_def createCall_def create_def validateAppointmentData_def callRow_def
      Let_def split: sum.splits)




end
